theory Spec2Isabelle
  imports Complex_Main "HOL-Library.Multiset"
begin

section \<open>Data model (models/Game.js)\<close>

text \<open>
  The card, player and game documents of the Mongoose schema.  JavaScript numbers that
  hold card values, scores, penalty turns, hit counts and the winning multiplier are
  small integers and are modelled as integers; presentation-only fields (username,
  avatar) and time stamps (dropTime, turnStartTime, lastActionAt, endTime) are left
  out, no rule reads them.

  Money amounts and the counters of a user account are JavaScript numbers of any size,
  fractional ones included: they have the type \<open>number\<close>, which holds every
  double-precision value (a finite double is a rational number).  Comparison of doubles
  is exact and is defined here; multiplication, addition and subtraction round, and are
  parameters of the model (\<open>number_ops\<close>), so that whatever is proved holds for the
  arithmetic of the machine.

  Suits and ranks are the string literals of \<open>createDeck\<close> together with the mask \<open>"?"\<close>
  written by the sanitizer (the schema lists exactly these suits): \<open>Hearts\<close> is
  \<open>'hearts'\<close>, \<open>RA\<close> is \<open>'A'\<close>, \<open>R2\<close> is \<open>'2'\<close>, \<open>HiddenSuit\<close> and \<open>HiddenRank\<close> are
  \<open>'?'\<close>.  Every one of them is a non-empty (truthy) string.

  The fields \<open>id\<close> and \<open>value\<close> of a card are called \<open>card_id\<close> and \<open>card_value\<close>,
  the field \<open>id\<close> of a player \<open>player_id\<close>, the field \<open>type\<close> of a spread
  \<open>spread_type\<close>.
\<close>

datatype number = Num rat | PosInfinity | NegInfinity | NaN

record number_ops =
  num_mul :: "number \<Rightarrow> number \<Rightarrow> number"
  num_add :: "number \<Rightarrow> number \<Rightarrow> number"
  num_sub :: "number \<Rightarrow> number \<Rightarrow> number"

text \<open>\<open>a < b\<close> and \<open>a <= b\<close> on numbers: false whenever an operand is \<open>NaN\<close>.\<close>

fun num_less :: "number \<Rightarrow> number \<Rightarrow> bool" where
  "num_less NaN b = False"
| "num_less a NaN = False"
| "num_less (Num x) (Num y) = (x < y)"
| "num_less (Num x) PosInfinity = True"
| "num_less (Num x) NegInfinity = False"
| "num_less PosInfinity b = False"
| "num_less NegInfinity NegInfinity = False"
| "num_less NegInfinity b = True"

fun num_le :: "number \<Rightarrow> number \<Rightarrow> bool" where
  "num_le NaN b = False"
| "num_le a NaN = False"
| "num_le a b = (a = b \<or> num_less a b)"

text \<open>\<open>x || 0\<close> on a number: 0 for the falsy numbers 0 and \<open>NaN\<close>.\<close>

definition or_zero :: "number \<Rightarrow> number" where
  "or_zero x = (if x = Num 0 \<or> x = NaN then Num 0 else x)"

text \<open>
  What double-precision arithmetic guarantees on integers: a product, sum or difference
  of two integers is exact when the operands and the result are at most \<open>2 ^ 53\<close> in
  absolute value.
\<close>

definition exact_on_integers :: "number_ops \<Rightarrow> bool" where
  "exact_on_integers ar \<longleftrightarrow>
     (\<forall>a b :: int. \<bar>a\<bar> \<le> 2 ^ 53 \<and> \<bar>b\<bar> \<le> 2 ^ 53 \<longrightarrow>
        (\<bar>a * b\<bar> \<le> 2 ^ 53 \<longrightarrow> num_mul ar (Num (of_int a)) (Num (of_int b)) = Num (of_int (a * b)))
      \<and> (\<bar>a + b\<bar> \<le> 2 ^ 53 \<longrightarrow> num_add ar (Num (of_int a)) (Num (of_int b)) = Num (of_int (a + b)))
      \<and> (\<bar>a - b\<bar> \<le> 2 ^ 53 \<longrightarrow> num_sub ar (Num (of_int a)) (Num (of_int b)) = Num (of_int (a - b))))"

datatype suit = Hearts | Diamonds | Clubs | Spades | HiddenSuit

datatype rank = RA | R2 | R3 | R4 | R5 | R6 | R7 | RJ | RQ | RK | HiddenRank

record card =
  card_id :: string
  suit :: suit
  rank :: rank
  card_value :: int
  isHidden :: bool

record player =
  player_id :: string
  isAI :: bool
  hand :: "card list"
  isDropped :: bool
  canDrop :: bool
  score :: int
  penalties :: int
  hitCount :: int
  hasDrawn :: bool

datatype status = Waiting | Playing | Ended

datatype spread_kind = SetSpread | RunSpread

record spread =
  spread_type :: spread_kind
  cards :: "card list"
  indices :: "nat list"

record penalty =
  playerId :: string
  penaltyTurns :: int
  hitSpread :: spread

datatype lastAction =
    NoAction
  | PenaltiesAction string "penalty list"
  | DiscardAction string card
  | DropAction string int int

record game =
  players :: "player list"
  currentPlayerIndex :: nat
  deck :: "card list"
  discardPile :: "card list"
  status :: status
  stake :: number
  pot :: number
  winner :: "string option"
  winningMultiplier :: int
  lastAction :: lastAction

text \<open>The account fields of models/User.js that the game controller updates.\<close>

record user =
  balance :: number
  gamesWon :: number
  totalWinnings :: number
  gamesPlayed :: number
  totalWagered :: number

type_synonym users = "string \<rightharpoonup> user"

section \<open>JavaScript array helpers\<close>

text \<open>
  \<open>Array.prototype.sort\<close> with a comparator is stable.  \<open>sort_by le\<close> is the stable
  insertion sort for the comparator \<open>cmp\<close> with \<open>le a b \<longleftrightarrow> cmp(a, b) \<le> 0\<close>: an element
  is put in front of the first element it may precede.
\<close>

fun insert_by :: "('a \<Rightarrow> 'a \<Rightarrow> bool) \<Rightarrow> 'a \<Rightarrow> 'a list \<Rightarrow> 'a list" where
  "insert_by le x [] = [x]"
| "insert_by le x (y # ys) = (if le x y then x # y # ys else y # insert_by le x ys)"

fun sort_by :: "('a \<Rightarrow> 'a \<Rightarrow> bool) \<Rightarrow> 'a list \<Rightarrow> 'a list" where
  "sort_by le [] = []"
| "sort_by le (x # xs) = insert_by le x (sort_by le xs)"

text \<open>\<open>findIndex\<close>: the index of the first element satisfying the predicate, \<open>None\<close> for -1.\<close>

fun findIndex :: "('a \<Rightarrow> bool) \<Rightarrow> 'a list \<Rightarrow> nat option" where
  "findIndex P [] = None"
| "findIndex P (x # xs) = (if P x then Some 0 else map_option Suc (findIndex P xs))"

text \<open>\<open>splice(i, 1)\<close>: the array without the element at index \<open>i\<close>.\<close>

definition splice1 :: "nat \<Rightarrow> 'a list \<Rightarrow> 'a list" where
  "splice1 i xs = take i xs @ drop (Suc i) xs"

definition startsWith :: "string \<Rightarrow> string \<Rightarrow> bool" where
  "startsWith s pre = (take (length pre) s = pre)"

text \<open>The decimal numeral of a number, as the template literal \<open>`card-${id++}`\<close> prints it.\<close>

fun string_of_nat :: "nat \<Rightarrow> string" where
  "string_of_nat n =
     (if n < 10 then [''0123456789'' ! n]
      else string_of_nat (n div 10) @ [''0123456789'' ! (n mod 10)])"

declare string_of_nat.simps [simp del]

section \<open>utils/cards.js\<close>

definition suits :: "suit list" where
  "suits = [Hearts, Diamonds, Clubs, Spades]"

definition ranks :: "rank list" where
  "ranks = [RA, R2, R3, R4, R5, R6, R7, RJ, RQ, RK]"

text \<open>The table \<open>values\<close> of \<open>createDeck\<close>; the mask \<open>'?'\<close> is not a key of it.\<close>

fun values_of :: "rank \<Rightarrow> int" where
  "values_of RA = 1"
| "values_of R2 = 2"
| "values_of R3 = 3"
| "values_of R4 = 4"
| "values_of R5 = 5"
| "values_of R6 = 6"
| "values_of R7 = 7"
| "values_of RJ = 10"
| "values_of RQ = 10"
| "values_of RK = 10"

text \<open>
  Fisher-Yates shuffle.  \<open>Math.random\<close> is a parameter: \<open>rnd k\<close> stands for the number
  \<open>Math.floor(Math.random() * k)\<close> drawn in the iteration that starts with
  \<open>currentIndex = k\<close>; it lies in \<open>{0..<k}\<close>, which \<open>mod\<close> enforces.
\<close>

fun shuffle_loop :: "(nat \<Rightarrow> nat) \<Rightarrow> nat \<Rightarrow> 'a list \<Rightarrow> 'a list" where
  "shuffle_loop rnd 0 shuffled = shuffled"
| "shuffle_loop rnd (Suc currentIndex) shuffled =
     (let randomIndex = rnd (Suc currentIndex) mod Suc currentIndex
      in shuffle_loop rnd currentIndex
           (shuffled[currentIndex := shuffled ! randomIndex,
                     randomIndex := shuffled ! currentIndex]))"

definition shuffle :: "(nat \<Rightarrow> nat) \<Rightarrow> 'a list \<Rightarrow> 'a list" where
  "shuffle rnd array = shuffle_loop rnd (length array) array"

text \<open>The deck in the order of the two nested loops, before it is shuffled.\<close>

definition orderedDeck :: "card list" where
  "orderedDeck =
     map (\<lambda>(i, (s, r)).
            \<lparr>card_id = ''card-'' @ string_of_nat i, suit = s, rank = r,
             card_value = values_of r, isHidden = False\<rparr>)
         (enumerate 0 (List.product suits ranks))"

definition createDeck :: "(nat \<Rightarrow> nat) \<Rightarrow> card list" where
  "createDeck rnd = shuffle rnd orderedDeck"

text \<open>\<open>dealCards\<close>: five rounds, one card popped from the end of the deck per player.\<close>

definition deal_one :: "nat \<Rightarrow> card list list \<times> card list \<Rightarrow> card list list \<times> card list" where
  "deal_one j st =
     (case st of (hands, deckCopy) \<Rightarrow>
        if deckCopy \<noteq> [] then (hands[j := hands ! j @ [last deckCopy]], butlast deckCopy)
        else (hands, deckCopy))"

definition dealCards :: "card list \<Rightarrow> nat \<Rightarrow> card list list \<times> card list" where
  "dealCards d playerCount =
     fold (\<lambda>i. fold deal_one [0..<playerCount]) [0..<5] (replicate playerCount [], d)"

fun consecutive :: "int list \<Rightarrow> bool" where
  "consecutive (a # b # rest) = (b = a + 1 \<and> consecutive (b # rest))"
| "consecutive _ = True"

text \<open>
  \<open>isValidSpread\<close>.  The filter \<open>card && card.rank && card.suit\<close> keeps every card of
  this model (suits and ranks are non-empty strings), so \<open>validCards\<close> is \<open>cs\<close>.
\<close>

definition isValidSpread :: "card list \<Rightarrow> bool" where
  "isValidSpread cs =
     (if length cs < 3 then False
      else if list_all (\<lambda>c. rank c = rank (hd cs)) cs then True
      else if \<not> list_all (\<lambda>c. suit c = suit (hd cs)) cs then False
      else let vs = map card_value (sort_by (\<lambda>a b. card_value a \<le> card_value b) cs)
           in if \<not> distinct vs then False else consecutive vs)"

text \<open>\<open>calculateHandScore\<close>: the sum of the card values, 0 for the empty hand.\<close>

definition calculateHandScore :: "card list \<Rightarrow> int" where
  "calculateHandScore h = sum_list (map card_value h)"

definition needsReshuffle :: "card list \<Rightarrow> card list \<Rightarrow> nat \<Rightarrow> bool" where
  "needsReshuffle d dp threshold = (length d \<le> threshold \<and> length dp > 1)"

definition reshuffleDeck :: "(nat \<Rightarrow> nat) \<Rightarrow> card list \<Rightarrow> card list \<Rightarrow> card list \<times> card list" where
  "reshuffleDeck rnd d dp =
     (if length dp \<le> 1 then (d, dp)
      else (shuffle rnd (d @ tl dp), [hd dp]))"

section \<open>utils/gameRules.js\<close>

definition canPlayerDrop :: "player \<Rightarrow> bool \<Rightarrow> bool" where
  "canPlayerDrop p isFirstTurn =
     (if penalties p > 0 then False
      else let s = calculateHandScore (hand p) in
        if s \<le> 11 then True
        else if isFirstTurn \<and> s \<le> 41 then True
        else s \<le> 50)"

definition calculateWinningMultiplier :: "int \<Rightarrow> bool \<Rightarrow> int" where
  "calculateWinningMultiplier s isFirstTurn =
     (if s \<le> 11 then 3
      else if isFirstTurn \<and> s = 41 then 3
      else if s = 50 then 2
      else 1)"

text \<open>
  \<open>findExistingSpreads\<close> groups the hand in two objects keyed by rank and by suit and
  reads them back with \<open>Object.values\<close>.  An object lists its integer-like keys first, in
  ascending order, and the other keys in insertion order: the ranks \<open>'2'\<close> to \<open>'7'\<close> are
  integer-like, no suit is.
\<close>

fun group_insert :: "'k \<Rightarrow> 'a \<Rightarrow> ('k \<times> 'a list) list \<Rightarrow> ('k \<times> 'a list) list" where
  "group_insert k x [] = [(k, [x])]"
| "group_insert k x ((k', xs) # rest) =
     (if k = k' then (k', xs @ [x]) # rest else (k', xs) # group_insert k x rest)"

definition groupBy :: "('a \<Rightarrow> 'k) \<Rightarrow> 'a list \<Rightarrow> ('k \<times> 'a list) list" where
  "groupBy key xs = foldl (\<lambda>acc x. group_insert (key x) x acc) [] xs"

fun array_index :: "rank \<Rightarrow> nat option" where
  "array_index R2 = Some 2"
| "array_index R3 = Some 3"
| "array_index R4 = Some 4"
| "array_index R5 = Some 5"
| "array_index R6 = Some 6"
| "array_index R7 = Some 7"
| "array_index _ = None"

definition rank_object_values :: "(rank \<times> 'a) list \<Rightarrow> 'a list" where
  "rank_object_values kvs =
     map snd (sort_by (\<lambda>a b. fst a \<le> fst b)
                (List.map_filter (\<lambda>kv. map_option (\<lambda>n. (n, snd kv)) (array_index (fst kv))) kvs))
     @ map snd (filter (\<lambda>kv. array_index (fst kv) = None) kvs)"

definition mk_spread :: "spread_kind \<Rightarrow> (card \<times> nat) list \<Rightarrow> spread" where
  "mk_spread k g = \<lparr>spread_type = k, cards = map fst g, indices = map snd g\<rparr>"

text \<open>
  The loop over a suit group sorted by value: \<open>currentRun\<close> grows while the next value is
  the last one plus 1, and is emitted when it ends with at least three cards.
\<close>

fun find_runs :: "(card \<times> nat) list \<Rightarrow> (card \<times> nat) list \<Rightarrow> spread list" where
  "find_runs currentRun [] =
     (if length currentRun \<ge> 3 then [mk_spread RunSpread currentRun] else [])"
| "find_runs currentRun (g # gs) =
     (if card_value (fst g) = card_value (fst (last currentRun)) + 1
      then find_runs (currentRun @ [g]) gs
      else (if length currentRun \<ge> 3 then [mk_spread RunSpread currentRun] else [])
           @ find_runs [g] gs)"

definition findExistingSpreads :: "card list \<Rightarrow> spread list" where
  "findExistingSpreads h =
     (let entries = zip h [0..<length h];
          sets = filter (\<lambda>g. length g \<ge> 3) (rank_object_values (groupBy (rank \<circ> fst) entries));
          used = concat (map (map snd) sets);
          suitGroups = map snd (groupBy (suit \<circ> fst) (filter (\<lambda>e. snd e \<notin> set used) entries))
      in map (mk_spread SetSpread) sets
         @ concat (map (\<lambda>g. if length g \<ge> 3
                             then (case sort_by (\<lambda>a b. card_value (fst a) \<le> card_value (fst b)) g of
                                     [] \<Rightarrow> []
                                   | g0 # rest \<Rightarrow> find_runs [g0] rest)
                             else [])
                     suitGroups))"

text \<open>
  \<open>cardHitsSpread\<close> reads \<open>spread.cards[0]\<close>; every spread that \<open>findExistingSpreads\<close>
  builds has at least three cards.
\<close>

definition cardHitsSpread :: "card \<Rightarrow> spread \<Rightarrow> bool" where
  "cardHitsSpread c sp =
     (case spread_type sp of
        SetSpread \<Rightarrow> rank c = rank (hd (cards sp))
      | RunSpread \<Rightarrow>
          if suit c \<noteq> suit (hd (cards sp)) then False
          else let vs = sort (map card_value (cards sp))
               in card_value c = hd vs - 1 \<or> card_value c = last vs + 1)"

text \<open>
  \<open>wouldHitSpread card targetPlayer allPlayers\<close> skips the players whose id is the
  target's and returns the first hit among the spreads of the others: \<open>None\<close> is
  \<open>{hit: false}\<close>, \<open>Some (playerId, spread)\<close> is \<open>{hit: true, playerId, spread}\<close>.
\<close>

fun wouldHitSpread :: "card \<Rightarrow> player \<Rightarrow> player list \<Rightarrow> (string \<times> spread) option" where
  "wouldHitSpread c targetPlayer [] = None"
| "wouldHitSpread c targetPlayer (p # ps) =
     (if player_id p = player_id targetPlayer then wouldHitSpread c targetPlayer ps
      else case find (cardHitsSpread c) (findExistingSpreads (hand p)) of
             Some sp \<Rightarrow> Some (player_id p, sp)
           | None \<Rightarrow> wouldHitSpread c targetPlayer ps)"

text \<open>
  \<open>applyHitPenalties game card playerId\<close>.  The loop writes \<open>penalties\<close> and \<open>hitCount\<close>
  only, and \<open>wouldHitSpread\<close> reads ids and hands only, so every iteration sees the
  players as they were when the loop started.
\<close>

definition hit_step :: "player list \<Rightarrow> card \<Rightarrow> string \<Rightarrow> player \<Rightarrow> player \<times> penalty list" where
  "hit_step allPlayers c drawerId p =
     (if player_id p = drawerId then (p, [])
      else case wouldHitSpread c p allPlayers of
             None \<Rightarrow> (p, [])
           | Some (hitId, sp) \<Rightarrow>
               (p\<lparr>penalties := 2 + hitCount p, hitCount := hitCount p + 1\<rparr>,
                [\<lparr>playerId = player_id p, penaltyTurns = 2 + hitCount p, hitSpread = sp\<rparr>]))"

definition applyHitPenalties :: "game \<Rightarrow> card \<Rightarrow> string \<Rightarrow> game \<times> penalty list" where
  "applyHitPenalties g c drawerId =
     (g\<lparr>players := map (fst \<circ> hit_step (players g) c drawerId) (players g)\<rparr>,
      concat (map (snd \<circ> hit_step (players g) c drawerId) (players g)))"

text \<open>
  \<open>getCombinations\<close> is called with sizes from 3 upwards; the size 0, on which the source
  does not return, is left out.
\<close>

fun getCombinations :: "'a list \<Rightarrow> nat \<Rightarrow> 'a list list" where
  "getCombinations arr (Suc 0) = map (\<lambda>item. [item]) arr"
| "getCombinations arr (Suc (Suc n)) =
     (if Suc (Suc n) > length arr then []
      else concat (map (\<lambda>i. map (\<lambda>combo. arr ! i # combo)
                                (getCombinations (drop (i + 1) arr) (Suc n)))
                       [0..<length arr - Suc (Suc n) + 1]))"

record playableSpread =
  playable_cards :: "card list"
  playable_type :: spread_kind
  playable_score :: int

definition findPlayableSpreads :: "card list \<Rightarrow> playableSpread list" where
  "findPlayableSpreads h =
     concat (map (\<lambda>size.
                    map (\<lambda>combo.
                           \<lparr>playable_cards = combo,
                            playable_type =
                              (if list_all (\<lambda>c. rank c = rank (hd combo)) combo
                               then SetSpread else RunSpread),
                            playable_score = sum_list (map card_value combo)\<rparr>)
                        (filter isValidSpread (getCombinations h size)))
                 [3..<length h + 1])"

text \<open>
  The request payload \<open>{cardId, cardIds, source}\<close>: an absent field is \<open>None\<close>.  The
  action and the draw source are the strings of the request.
\<close>

record action_data =
  cardId :: "string option"
  cardIds :: "string list option"
  source :: "string option"

datatype validation_error =
    PlayerNotFound
  | PlayerAlreadyDropped
  | NotYourTurn
  | InvalidAction
  | DiscardPileIsEmpty
  | NoCardsAvailableToDraw
  | CardIdRequired
  | CardNotInHand
  | CannotDropPenalties int
  | CannotDropWithScore int
  | AtLeast3CardsRequired
  | CardsNotInHand
  | InvalidSpreadCombination

datatype validation = Valid | Invalid validation_error

definition validateDraw :: "game \<Rightarrow> player \<Rightarrow> action_data \<Rightarrow> validation" where
  "validateDraw g p d =
     (if source d = Some ''discard'' \<and> length (discardPile g) = 0
        then Invalid DiscardPileIsEmpty
      else if source d = Some ''deck'' \<and> length (deck g) = 0 \<and> length (discardPile g) \<le> 1
        then Invalid NoCardsAvailableToDraw
      else Valid)"

definition validateDiscard :: "game \<Rightarrow> player \<Rightarrow> action_data \<Rightarrow> validation" where
  "validateDiscard g p d =
     (case cardId d of
        None \<Rightarrow> Invalid CardIdRequired
      | Some i \<Rightarrow>
          if i = [] then Invalid CardIdRequired
          else if \<not> list_ex (\<lambda>c. card_id c = i) (hand p) then Invalid CardNotInHand
          else Valid)"

definition validateDrop :: "game \<Rightarrow> player \<Rightarrow> action_data \<Rightarrow> validation" where
  "validateDrop g p d =
     (if penalties p > 0 then Invalid (CannotDropPenalties (penalties p))
      else let sc = calculateHandScore (hand p);
               isFirstTurn = list_all (\<lambda>q. \<not> isDropped q \<or> player_id q = player_id p) (players g)
           in if \<not> canPlayerDrop p isFirstTurn then Invalid (CannotDropWithScore sc)
              else Valid)"

definition validateSpread :: "game \<Rightarrow> player \<Rightarrow> action_data \<Rightarrow> validation" where
  "validateSpread g p d =
     (case cardIds d of
        None \<Rightarrow> Invalid AtLeast3CardsRequired
      | Some ids \<Rightarrow>
          if length ids < 3 then Invalid AtLeast3CardsRequired
          else let found = map (\<lambda>i. find (\<lambda>c. card_id c = i) (hand p)) ids
               in if list_ex (\<lambda>c. c = None) found then Invalid CardsNotInHand
                  else if \<not> isValidSpread (map the found) then Invalid InvalidSpreadCombination
                  else Valid)"

text \<open>
  \<open>isValidMove\<close>: \<open>game.players.indexOf(player)\<close> is the index of the player object that
  \<open>find\<close> returned, the first one with the given id.
\<close>

definition isValidMove :: "game \<Rightarrow> string \<Rightarrow> string \<Rightarrow> action_data \<Rightarrow> validation" where
  "isValidMove g pid action d =
     (case findIndex (\<lambda>p. player_id p = pid) (players g) of
        None \<Rightarrow> Invalid PlayerNotFound
      | Some i \<Rightarrow>
          let p = players g ! i in
          if isDropped p then Invalid PlayerAlreadyDropped
          else if currentPlayerIndex g \<noteq> i then Invalid NotYourTurn
          else if action = ''draw'' then validateDraw g p d
          else if action = ''discard'' then validateDiscard g p d
          else if action = ''drop'' then validateDrop g p d
          else if action = ''spread'' then validateSpread g p d
          else Invalid InvalidAction)"

section \<open>utils/ai.js\<close>

datatype difficulty = Easy | Medium | Hard

text \<open>
  The agent scores its options in floating point.  What it does with the scores is
  modelled here; the arithmetic itself is a parameter, one field per place where the
  source compares or orders floating-point numbers:
  \<^item> \<open>exceedsThreshold completes improves value difficulty\<close>: whether the clamped sum of
    \<open>analyzeDiscardValue\<close> is greater than the threshold of the difficulty;
  \<^item> \<open>priorityOf value partOfSpread completes helps\<close>: the priority that
    \<open>analyzeDiscardCandidates\<close> gives a card (\<open>value * 0.1\<close>, minus 0.5, 0.7 and 0.3
    for the three flags), in any linear order;
  \<^item> \<open>riskBelow\<close>, \<open>riskBelowHalf\<close>, \<open>riskAbove\<close>: the three comparisons of
    \<open>assessGameRisk\<close> with the risk tolerance in \<open>makeDropDecision\<close>.
\<close>

record 'p float_ops =
  exceedsThreshold :: "bool \<Rightarrow> bool \<Rightarrow> int \<Rightarrow> difficulty \<Rightarrow> bool"
  priorityOf :: "int \<Rightarrow> bool \<Rightarrow> bool \<Rightarrow> bool \<Rightarrow> 'p"
  riskBelow :: "game \<Rightarrow> player \<Rightarrow> difficulty \<Rightarrow> bool"
  riskBelowHalf :: "game \<Rightarrow> player \<Rightarrow> difficulty \<Rightarrow> bool"
  riskAbove :: "game \<Rightarrow> player \<Rightarrow> difficulty \<Rightarrow> bool"

definition wouldCompleteSpread :: "card list \<Rightarrow> card \<Rightarrow> bool" where
  "wouldCompleteSpread h c =
     list_ex (\<lambda>i. list_ex (\<lambda>j. isValidSpread [h ! i, h ! j, c]) [i + 1..<length h])
             [0..<length h - 1]"

definition wouldImproveSpread :: "card list \<Rightarrow> card \<Rightarrow> bool" where
  "wouldImproveSpread h c =
     (let currentSpreads = findPlayableSpreads h;
          newSpreads = findPlayableSpreads (h @ [c])
      in length newSpreads > length currentSpreads
         \<or> list_ex (\<lambda>sp. length (playable_cards sp) > 3) newSpreads)"

definition decideDrawSource :: "'p float_ops \<Rightarrow> game \<Rightarrow> player \<Rightarrow> difficulty \<Rightarrow> string" where
  "decideDrawSource fl g aiPlayer dif =
     (if length (discardPile g) = 0 then ''deck''
      else let topDiscard = hd (discardPile g)
           in if exceedsThreshold fl (wouldCompleteSpread (hand aiPlayer) topDiscard)
                   (wouldImproveSpread (hand aiPlayer) topDiscard) (card_value topDiscard) dif
              then ''discard'' else ''deck'')"

definition isPartOfPotentialSpread :: "card \<Rightarrow> card list \<Rightarrow> bool" where
  "isPartOfPotentialSpread c h =
     (let otherCards = filter (\<lambda>x. card_id x \<noteq> card_id c) h;
          sameRank = filter (\<lambda>x. rank x = rank c) otherCards;
          sameSuit = filter (\<lambda>x. suit x = suit c) otherCards
      in if length sameRank \<ge> 1 then True
         else list_ex (\<lambda>suitCard. \<bar>card_value suitCard - card_value c\<bar> \<le> 2) sameSuit)"

definition couldCompleteSpread :: "card \<Rightarrow> card list \<Rightarrow> bool" where
  "couldCompleteSpread c h =
     (let withoutCard = filter (\<lambda>x. card_id x \<noteq> card_id c) h
      in length (findPlayableSpreads h) > length (findPlayableSpreads withoutCard))"

definition mightHelpOpponents :: "card \<Rightarrow> game \<Rightarrow> bool" where
  "mightHelpOpponents c g = (card_value c \<le> 5)"

definition analyzeDiscardCandidates ::
  "'p float_ops \<Rightarrow> card list \<Rightarrow> game \<Rightarrow> difficulty \<Rightarrow> (card \<times> 'p) list" where
  "analyzeDiscardCandidates fl h g dif =
     map (\<lambda>c. (c, priorityOf fl (card_value c) (isPartOfPotentialSpread c h)
                     (couldCompleteSpread c h) (dif = Hard \<and> mightHelpOpponents c g))) h"

text \<open>
  \<open>decideCardToDiscard\<close>: \<open>None\<close> is \<open>null\<close>.  The candidates are sorted by descending
  priority; \<open>candidates[0]?.card.id || hand[0].id\<close> falls back to the first card of the
  hand when the id of the first candidate is the empty string.
\<close>

definition decideCardToDiscard ::
  "('p::linorder) float_ops \<Rightarrow> card list \<Rightarrow> game \<Rightarrow> difficulty \<Rightarrow> string option" where
  "decideCardToDiscard fl h g dif =
     (if length h = 0 then None
      else if length h = 1 then Some (card_id (hd h))
      else case sort_by (\<lambda>a b. snd b \<le> snd a) (analyzeDiscardCandidates fl h g dif) of
             [] \<Rightarrow> Some (card_id (hd h))
           | c0 # rest \<Rightarrow>
               Some (if card_id (fst c0) \<noteq> [] then card_id (fst c0) else card_id (hd h)))"

definition makeDropDecision ::
  "'p float_ops \<Rightarrow> int \<Rightarrow> bool \<Rightarrow> game \<Rightarrow> player \<Rightarrow> difficulty \<Rightarrow> bool" where
  "makeDropDecision fl sc isFirstTurn g aiPlayer dif =
     (if sc \<le> 11 then True
      else if isFirstTurn \<and> sc = 41 then True
      else if sc = 50 then True
      else if sc \<le> 20 then True
      else if sc \<le> 30 \<and> riskBelow fl g aiPlayer dif then True
      else if sc \<le> 40 \<and> riskBelowHalf fl g aiPlayer dif then True
      else if riskAbove fl g aiPlayer dif then True
      else False)"

definition shouldDrop :: "'p float_ops \<Rightarrow> player \<Rightarrow> game \<Rightarrow> difficulty \<Rightarrow> bool" where
  "shouldDrop fl aiPlayer g dif =
     (if penalties aiPlayer > 0 then False
      else let sc = calculateHandScore (hand aiPlayer);
               isFirstTurn = list_all (\<lambda>q. \<not> isDropped q \<or> player_id q = player_id aiPlayer)
                                      (players g)
           in if \<not> canPlayerDrop aiPlayer isFirstTurn then False
              else makeDropDecision fl sc isFirstTurn g aiPlayer dif)"

definition getAIPersonality :: "string \<Rightarrow> difficulty" where
  "getAIPersonality aiId =
     (if aiId = ''ai-1'' then Easy
      else if aiId = ''ai-2'' then Medium
      else if aiId = ''ai-3'' then Hard
      else Medium)"

section \<open>controllers/gameController.js\<close>

text \<open>
  What a handler throws.  \<open>TypeError\<close> stands for the failed read of a property of
  \<open>undefined\<close> (a player index out of range) and for the assignment to the constant
  \<open>cardToDiscard\<close> in \<open>processAITurns\<close>.
\<close>

datatype error =
    DiscardPileEmptyError
  | NoCardsAvailableError
  | CardNotFoundInHandError
  | SpreadNotImplementedError
  | TypeError

definition update_player :: "nat \<Rightarrow> (player \<Rightarrow> player) \<Rightarrow> game \<Rightarrow> game" where
  "update_player i f g = g\<lparr>players := (players g)[i := f (players g ! i)]\<rparr>"

text \<open>The end of \<open>handleDraw\<close>: score, drop eligibility and the draw flag of the drawer.\<close>

definition finish_draw :: "nat \<Rightarrow> game \<Rightarrow> game" where
  "finish_draw i g =
     update_player i
       (\<lambda>p. p\<lparr>score := calculateHandScore (hand p), canDrop := canPlayerDrop p False,
               hasDrawn := True\<rparr>) g"

text \<open>The deck and the discard pile after the reshuffle check of a draw from the deck.\<close>

definition deck_before_draw :: "(nat \<Rightarrow> nat) \<Rightarrow> game \<Rightarrow> card list \<times> card list" where
  "deck_before_draw rnd g =
     (if needsReshuffle (deck g) (discardPile g) 5
      then reshuffleDeck rnd (deck g) (discardPile g) else (deck g, discardPile g))"

text \<open>
  \<open>handleDraw\<close>.  \<open>rnd\<close> is the random source of the reshuffle, should there be one.  A
  draw from the discard pile takes its first element (\<open>shift\<close>), a draw from the deck
  its last (\<open>pop\<close>); only a draw from the deck applies hit penalties.
\<close>

definition handleDraw :: "(nat \<Rightarrow> nat) \<Rightarrow> game \<Rightarrow> nat \<Rightarrow> bool \<Rightarrow> error + game" where
  "handleDraw rnd g playerIndex fromDiscard =
     (if fromDiscard then
        (case discardPile g of
           [] \<Rightarrow> Inl DiscardPileEmptyError
         | drawnCard # rest \<Rightarrow>
             if playerIndex \<ge> length (players g) then Inl TypeError
             else Inr (finish_draw playerIndex
                    (update_player playerIndex (\<lambda>p. p\<lparr>hand := hand p @ [drawnCard]\<rparr>)
                       (g\<lparr>discardPile := rest\<rparr>))))
      else
        (let reshuffled = deck_before_draw rnd g;
             g1 = g\<lparr>deck := fst reshuffled, discardPile := snd reshuffled\<rparr>
         in if length (deck g1) = 0 then Inl NoCardsAvailableError
            else if playerIndex \<ge> length (players g) then Inl TypeError
            else let drawnCard = last (deck g1);
                     g2 = update_player playerIndex (\<lambda>p. p\<lparr>hand := hand p @ [drawnCard]\<rparr>)
                            (g1\<lparr>deck := butlast (deck g1)\<rparr>);
                     drawerId = player_id (players g2 ! playerIndex);
                     applied = applyHitPenalties g2 drawnCard drawerId;
                     g3 = (if length (snd applied) > 0
                           then (fst applied)\<lparr>lastAction := PenaltiesAction drawerId (snd applied)\<rparr>
                           else fst applied)
                 in Inr (finish_draw playerIndex g3)))"

text \<open>
  \<open>getNextActivePlayer\<close>.  The loop is entered with a valid index of the current player
  (the handlers read that player before); the guard on the two indices states this.
\<close>

function next_active_loop :: "player list \<Rightarrow> nat \<Rightarrow> nat \<Rightarrow> nat" where
  "next_active_loop ps cur nextIndex =
     (if cur < length ps \<and> nextIndex < length ps \<and> isDropped (ps ! nextIndex)
      then let n = (nextIndex + 1) mod length ps
           in if n = cur then n else next_active_loop ps cur n
      else nextIndex)"
  by pat_completeness auto
termination
proof (relation "measure (\<lambda>(ps, cur, i). if i = cur then length ps
                                     else if i < cur then cur - i else cur + length ps - i)")
  show "wf (measure (\<lambda>(ps, cur, i). if i = cur then length ps
                                     else if i < cur then cur - i else cur + length ps - i))"
    by simp
next
  fix ps :: "player list" and cur nextIndex x
  assume a: "cur < length ps \<and> nextIndex < length ps \<and> isDropped (ps ! nextIndex)"
    and x: "x = (nextIndex + 1) mod length ps" and ne: "x \<noteq> cur"
  have "x = (if nextIndex + 1 < length ps then nextIndex + 1 else 0)"
  proof (cases "nextIndex + 1 < length ps")
    case True
    then show ?thesis using x by simp
  next
    case False
    then have "nextIndex + 1 = length ps" using a by simp
    then show ?thesis using x False by simp
  qed
  then show "((ps, cur, x), (ps, cur, nextIndex))
        \<in> measure (\<lambda>(ps, cur, i). if i = cur then length ps
                                     else if i < cur then cur - i else cur + length ps - i)"
    using a ne by (auto split: if_splits)
qed

declare next_active_loop.simps [simp del]

definition getNextActivePlayer :: "game \<Rightarrow> nat \<Rightarrow> nat" where
  "getNextActivePlayer g cur =
     next_active_loop (players g) cur ((cur + 1) mod length (players g))"

text \<open>The loop of \<open>handleDiscard\<close> over all players: one penalty turn less, and \<open>canDrop\<close>.\<close>

definition decrement_penalty :: "player \<Rightarrow> player" where
  "decrement_penalty p =
     (let q = (if penalties p > 0 then p\<lparr>penalties := penalties p - 1\<rparr> else p)
      in q\<lparr>canDrop := canPlayerDrop q False\<rparr>)"

definition handleDiscard :: "game \<Rightarrow> nat \<Rightarrow> string \<Rightarrow> error + game" where
  "handleDiscard g playerIndex cid =
     (if playerIndex \<ge> length (players g) then Inl TypeError
      else let p = players g ! playerIndex in
        case findIndex (\<lambda>c. card_id c = cid) (hand p) of
          None \<Rightarrow> Inl CardNotFoundInHandError
        | Some cardIndex \<Rightarrow>
            let c = hand p ! cardIndex;
                g1 = update_player playerIndex (\<lambda>q. q\<lparr>hand := splice1 cardIndex (hand q)\<rparr>)
                       (g\<lparr>discardPile := c # discardPile g\<rparr>);
                g2 = update_player playerIndex
                       (\<lambda>q. q\<lparr>score := calculateHandScore (hand q),
                               canDrop := canPlayerDrop q False, hasDrawn := False\<rparr>) g1;
                g3 = g2\<lparr>players := map decrement_penalty (players g2)\<rparr>
            in Inr (g3\<lparr>currentPlayerIndex := getNextActivePlayer g3 playerIndex,
                       lastAction := DiscardAction (player_id p) c\<rparr>))"

text \<open>
  \<open>endGame\<close>: the winner, if not an AI and known to the user store, is credited
  \<open>pot * multiplier\<close>; every human player of the game has the game counted.  The
  arithmetic is that of \<open>ar\<close>.  The account documents come from the store, where they
  passed the validators of their schema (no field below 0), and \<open>save\<close> is taken to
  succeed on them.  The table registry and the lobby broadcast are left out.
\<close>

definition credit_winner :: "number_ops \<Rightarrow> number \<Rightarrow> user \<Rightarrow> user" where
  "credit_winner ar winnings u =
     u\<lparr>balance := num_add ar (balance u) winnings,
       gamesWon := num_add ar (gamesWon u) (Num 1),
       totalWinnings := num_add ar (or_zero (totalWinnings u)) winnings\<rparr>"

definition count_game :: "number_ops \<Rightarrow> number \<Rightarrow> player \<Rightarrow> users \<Rightarrow> users" where
  "count_game ar st p us =
     (if \<not> startsWith (player_id p) ''ai-'' then
        (case us (player_id p) of
           Some u \<Rightarrow> us(player_id p \<mapsto> u\<lparr>gamesPlayed := num_add ar (gamesPlayed u) (Num 1),
                                         totalWagered := num_add ar (or_zero (totalWagered u)) st\<rparr>)
         | None \<Rightarrow> us)
      else us)"

definition endGame :: "number_ops \<Rightarrow> users \<Rightarrow> game \<Rightarrow> string \<Rightarrow> int \<Rightarrow> users \<times> game" where
  "endGame ar us g winnerId multiplier =
     (let g1 = g\<lparr>status := Ended, winner := Some winnerId, winningMultiplier := multiplier\<rparr>;
          winnings = num_mul ar (pot g1) (Num (of_int multiplier));
          us1 = (if \<not> startsWith winnerId ''ai-'' then
                   (case us winnerId of
                      Some u \<Rightarrow> us(winnerId \<mapsto> credit_winner ar winnings u)
                    | None \<Rightarrow> us)
                 else us)
      in (fold (count_game ar (stake g1)) (players g1) us1, g1))"

definition handleDrop :: "number_ops \<Rightarrow> users \<Rightarrow> game \<Rightarrow> nat \<Rightarrow> error + (users \<times> game)" where
  "handleDrop ar us g playerIndex =
     (if playerIndex \<ge> length (players g) then Inl TypeError
      else let p = players g ! playerIndex;
               sc = calculateHandScore (hand p);
               isFirstTurn = list_all (\<lambda>q. \<not> isDropped q \<or> player_id q = player_id p) (players g);
               multiplier = calculateWinningMultiplier sc isFirstTurn;
               g1 = (update_player playerIndex (\<lambda>q. q\<lparr>score := sc, isDropped := True\<rparr>) g)
                      \<lparr>lastAction := DropAction (player_id p) sc multiplier\<rparr>;
               activePlayers = filter (\<lambda>q. \<not> isDropped q) (players g1)
           in if length activePlayers \<le> 1 then Inr (endGame ar us g1 (player_id p) multiplier)
              else Inr (us, g1\<lparr>currentPlayerIndex := getNextActivePlayer g1 playerIndex\<rparr>))"

definition handleSpread :: "game \<Rightarrow> nat \<Rightarrow> string list option \<Rightarrow> error + game" where
  "handleSpread g playerIndex ids = Inl SpreadNotImplementedError"

text \<open>
  \<open>processAITurns\<close>: the while loop with its counter \<open>maxAITurns\<close>; \<open>rnds k\<close> is the
  random source of the draw made when the counter is \<open>k\<close>.  The loop condition reads the
  status, then the current player, then the counter.
\<close>

fun processAITurns_loop ::
  "number_ops \<Rightarrow> ('p::linorder) float_ops \<Rightarrow> (nat \<Rightarrow> nat \<Rightarrow> nat) \<Rightarrow> nat \<Rightarrow> users \<Rightarrow> game \<Rightarrow> nat
     \<Rightarrow> error + (users \<times> game)" where
  "processAITurns_loop ar fl rnds 0 us g cpi =
     (if status g \<noteq> Playing then Inr (us, g)
      else if cpi \<ge> length (players g) then Inl TypeError
      else Inr (us, g))"
| "processAITurns_loop ar fl rnds (Suc maxAITurns) us g cpi =
     (if status g \<noteq> Playing then Inr (us, g)
      else if cpi \<ge> length (players g) then Inl TypeError
      else if \<not> isAI (players g ! cpi) then Inr (us, g)
      else if isDropped (players g ! cpi)
        then processAITurns_loop ar fl rnds maxAITurns us g (getNextActivePlayer g cpi)
      else
        let dif = getAIPersonality (player_id (players g ! cpi));
            drawSource = decideDrawSource fl g (players g ! cpi) dif
        in case handleDraw (rnds (Suc maxAITurns)) g cpi (drawSource = ''discard'') of
             Inl e \<Rightarrow> Inl e
           | Inr g1 \<Rightarrow>
               (case decideCardToDiscard fl (hand (players g1 ! cpi)) g1 dif of
                  None \<Rightarrow> Inl TypeError
                | Some cardToDiscard \<Rightarrow>
                    if cardToDiscard = [] then Inl TypeError
                    else case handleDiscard g1 cpi cardToDiscard of
                           Inl e \<Rightarrow> Inl e
                         | Inr g2 \<Rightarrow>
                             if canDrop (players g2 ! cpi) \<and> shouldDrop fl (players g2 ! cpi) g2 dif
                               then handleDrop ar us g2 cpi
                             else if length (filter (\<lambda>p. \<not> isAI p \<and> \<not> isDropped p) (players g2)) = 0
                               then (case findIndex (\<lambda>p. isAI p \<and> \<not> isDropped p) (players g2) of
                                       Some aiIndex \<Rightarrow> handleDrop ar us g2 aiIndex
                                     | None \<Rightarrow> Inr (us, g2))
                             else processAITurns_loop ar fl rnds maxAITurns us g2 (currentPlayerIndex g2)))"

definition processAITurns ::
  "number_ops \<Rightarrow> ('p::linorder) float_ops \<Rightarrow> (nat \<Rightarrow> nat \<Rightarrow> nat) \<Rightarrow> users \<Rightarrow> game \<Rightarrow> error + (users \<times> game)" where
  "processAITurns ar fl rnds us g = processAITurns_loop ar fl rnds 10 us g (currentPlayerIndex g)"

text \<open>\<open>sanitizeGameForPlayer\<close>: the view of the game sent to the player \<open>viewer\<close>.\<close>

definition sanitizeGameForPlayer :: "game \<Rightarrow> string \<Rightarrow> game" where
  "sanitizeGameForPlayer g viewer =
     g\<lparr>players :=
         map (\<lambda>p. if player_id p \<noteq> viewer \<and> \<not> isDropped p
                  then p\<lparr>hand := map (\<lambda>c. \<lparr>card_id = card_id c, suit = HiddenSuit,
                                             rank = HiddenRank, card_value = 0,
                                             isHidden = True\<rparr>) (hand p)\<rparr>
                  else p)
             (players g)\<rparr>"

text \<open>
  \<open>performAction\<close>, for a game that was found in the store.  The result is the response,
  the user store and the stored game: the game is saved only when the action and the AI
  turns after it went through; an exception is answered with status 500 and leaves the
  stored game as it was.
\<close>

datatype message =
    GameNotInProgress
  | NotAPlayerInThisGame
  | ValidationFailed validation_error
  | InvalidActionMessage
  | Thrown error

datatype response = Json game | Failure nat message

text \<open>
  The switch of \<open>performAction\<close> over the action; \<open>None\<close> is its default branch.  A
  discard without a card id looks for \<open>undefined\<close> in the hand and finds nothing.
\<close>

definition process_action ::
  "number_ops \<Rightarrow> (nat \<Rightarrow> nat) \<Rightarrow> users \<Rightarrow> game \<Rightarrow> nat \<Rightarrow> string \<Rightarrow> action_data
     \<Rightarrow> (error + (users \<times> game)) option" where
  "process_action ar rnd us g playerIndex action d =
     (if action = ''draw''
        then Some (map_sum id (Pair us) (handleDraw rnd g playerIndex (source d = Some ''discard'')))
      else if action = ''discard''
        then Some (case cardId d of
                     None \<Rightarrow> (if playerIndex \<ge> length (players g) then Inl TypeError
                                else Inl CardNotFoundInHandError)
                   | Some c \<Rightarrow> map_sum id (Pair us) (handleDiscard g playerIndex c))
      else if action = ''drop'' then Some (handleDrop ar us g playerIndex)
      else if action = ''spread''
        then Some (map_sum id (Pair us) (handleSpread g playerIndex (cardIds d)))
      else None)"

definition performAction ::
  "number_ops \<Rightarrow> ('p::linorder) float_ops \<Rightarrow> (nat \<Rightarrow> nat) \<Rightarrow> (nat \<Rightarrow> nat \<Rightarrow> nat) \<Rightarrow> users \<Rightarrow> game
     \<Rightarrow> string \<Rightarrow> string \<Rightarrow> action_data \<Rightarrow> response \<times> users \<times> game" where
  "performAction ar fl rnd rnds us g userId action d =
     (if status g \<noteq> Playing then (Failure 400 GameNotInProgress, us, g)
      else case findIndex (\<lambda>p. player_id p = userId) (players g) of
        None \<Rightarrow> (Failure 400 NotAPlayerInThisGame, us, g)
      | Some playerIndex \<Rightarrow>
          (case isValidMove g userId action d of
             Invalid e \<Rightarrow> (Failure 400 (ValidationFailed e), us, g)
           | Valid \<Rightarrow>
               (case process_action ar rnd us g playerIndex action d of
                  None \<Rightarrow> (Failure 400 InvalidActionMessage, us, g)
                | Some (Inl e) \<Rightarrow> (Failure 500 (Thrown e), us, g)
                | Some (Inr (us1, g1)) \<Rightarrow>
                    (case (if status g1 = Playing then processAITurns ar fl rnds us1 g1
                           else Inr (us1, g1)) of
                       Inl e \<Rightarrow> (Failure 500 (Thrown e), us1, g)
                     | Inr (us2, g2) \<Rightarrow> (Json (sanitizeGameForPlayer g2 userId), us2, g2)))))"

text \<open>
  \<open>createGame\<close>.  The game document is built from the player objects before the loop
  that computes \<open>canDrop\<close> for the first turn runs on those objects, so the document keeps
  the \<open>canDrop: false\<close> it was built with.  The stake is deducted and the account saved
  before the game document is saved; the schema of the game refuses a stake below 1
  (\<open>min: 1\<close>), which ends the request with a server error after the deduction.
\<close>

definition new_player :: "string \<Rightarrow> bool \<Rightarrow> card list \<Rightarrow> player" where
  "new_player i ai h =
     \<lparr>player_id = i, isAI = ai, hand = h, isDropped = False, canDrop = False,
      score = calculateHandScore h, penalties = 0, hitCount = 0, hasDrawn = False\<rparr>"

definition newGame :: "number_ops \<Rightarrow> (nat \<Rightarrow> nat) \<Rightarrow> string \<Rightarrow> number \<Rightarrow> game" where
  "newGame ar rnd userId st =
     (let dealt = dealCards (createDeck rnd) 4;
          hands = fst dealt;
          remainingDeck = snd dealt
      in \<lparr>players = [new_player userId False (hands ! 0), new_player ''ai-1'' True (hands ! 1),
                      new_player ''ai-2'' True (hands ! 2), new_player ''ai-3'' True (hands ! 3)],
          currentPlayerIndex = 0,
          deck = butlast remainingDeck,
          discardPile = [last remainingDeck],
          status = Playing,
          stake = st,
          pot = num_mul ar st (Num 4),
          winner = None,
          winningMultiplier = 1,
          lastAction = NoAction\<rparr>)"

datatype create_error = ValidStakeRequired | UserNotFound | InsufficientBalance | ServerErrorCreating

definition createGame ::
  "number_ops \<Rightarrow> (nat \<Rightarrow> nat) \<Rightarrow> users \<Rightarrow> string \<Rightarrow> number
     \<Rightarrow> users \<times> (create_error + game)" where
  "createGame ar rnd us userId st =
     (if st = Num 0 \<or> st = NaN \<or> num_le st (Num 0) then (us, Inl ValidStakeRequired)
      else case us userId of
        None \<Rightarrow> (us, Inl UserNotFound)
      | Some u \<Rightarrow>
          if num_less (balance u) st then (us, Inl InsufficientBalance)
          else let us1 = us(userId \<mapsto> u\<lparr>balance := num_sub ar (balance u) st\<rparr>)
               in if \<not> num_le (Num 1) st then (us1, Inl ServerErrorCreating)
                  else (us1, Inr (newGame ar rnd userId st)))"

text \<open>
  Two names for parts of \<open>handleDrop\<close>: its \<open>isFirstTurn\<close> (nobody but the dropper has
  dropped yet), and the game after the dropper's score and flag and the last action are
  written, before the game ends or the turn passes.
\<close>

definition isFirstTurnFor :: "game \<Rightarrow> nat \<Rightarrow> bool" where
  "isFirstTurnFor g i =
     list_all (\<lambda>q. \<not> isDropped q \<or> player_id q = player_id (players g ! i)) (players g)"

definition dropped_game :: "game \<Rightarrow> nat \<Rightarrow> game" where
  "dropped_game g i =
     (update_player i (\<lambda>q. q\<lparr>score := calculateHandScore (hand q), isDropped := True\<rparr>) g)
        \<lparr>lastAction := DropAction (player_id (players g ! i)) (calculateHandScore (hand (players g ! i)))
            (calculateWinningMultiplier (calculateHandScore (hand (players g ! i))) (isFirstTurnFor g i))\<rparr>"

section \<open>Zones and reachable games\<close>

text \<open>All cards of a game: the hands in seat order, the deck, the discard pile.\<close>

definition all_cards :: "game \<Rightarrow> card list" where
  "all_cards g = concat (map hand (players g)) @ deck g @ discardPile g"

text \<open>
  The games that play can reach under the arithmetic \<open>ar\<close>: a freshly created game, and
  from a game in progress the result of a draw, a discard, a reshuffle or a drop, for
  any seat, any card id and any outcome of the random source.
\<close>

inductive reachable :: "number_ops \<Rightarrow> game \<Rightarrow> bool" for ar :: number_ops where
  created: "reachable ar (newGame ar rnd userId st)"
| draw: "reachable ar g \<Longrightarrow> status g = Playing \<Longrightarrow> handleDraw rnd g i fromDiscard = Inr g'
           \<Longrightarrow> reachable ar g'"
| discard: "reachable ar g \<Longrightarrow> status g = Playing \<Longrightarrow> handleDiscard g i cid = Inr g'
           \<Longrightarrow> reachable ar g'"
| reshuffle: "reachable ar g \<Longrightarrow> status g = Playing
           \<Longrightarrow> reachable ar (g\<lparr>deck := fst (reshuffleDeck rnd (deck g) (discardPile g)),
                              discardPile := snd (reshuffleDeck rnd (deck g) (discardPile g))\<rparr>)"
| drop: "reachable ar g \<Longrightarrow> status g = Playing \<Longrightarrow> handleDrop ar us g i = Inr (us', g')
           \<Longrightarrow> reachable ar g'"

text \<open>
  \<open>keeps_dropped g g'\<close>: from \<open>g\<close> to \<open>g'\<close> the seats are the same, and every player who
  has dropped in \<open>g\<close> has the same hand and score in \<open>g'\<close> and is still dropped.
\<close>

definition keeps_dropped :: "game \<Rightarrow> game \<Rightarrow> bool" where
  "keeps_dropped g g' \<longleftrightarrow>
     length (players g') = length (players g)
     \<and> (\<forall>j < length (players g). isDropped (players g ! j) \<longrightarrow>
           hand (players g' ! j) = hand (players g ! j)
           \<and> score (players g' ! j) = score (players g ! j)
           \<and> isDropped (players g' ! j))"

section \<open>Example data\<close>

definition mk_card :: "string \<Rightarrow> suit \<Rightarrow> rank \<Rightarrow> int \<Rightarrow> card" where
  "mk_card i s r v = \<lparr>card_id = i, suit = s, rank = r, card_value = v, isHidden = False\<rparr>"

text \<open>Hands of five cards that score 12 and 8, and six face cards that score 60.\<close>

definition hand12 :: "card list" where
  "hand12 = [mk_card ''card-0'' Hearts RA 1, mk_card ''card-10'' Diamonds RA 1,
              mk_card ''card-21'' Clubs R2 2, mk_card ''card-32'' Spades R3 3,
              mk_card ''card-14'' Diamonds R5 5]"

definition hand8 :: "card list" where
  "hand8 = [mk_card ''card-0'' Hearts RA 1, mk_card ''card-10'' Diamonds RA 1,
             mk_card ''card-1'' Hearts R2 2, mk_card ''card-11'' Diamonds R2 2,
             mk_card ''card-21'' Clubs R2 2]"

definition faces60 :: "card list" where
  "faces60 = [mk_card ''card-7'' Hearts RJ 10, mk_card ''card-8'' Hearts RQ 10,
               mk_card ''card-9'' Hearts RK 10, mk_card ''card-17'' Diamonds RJ 10,
               mk_card ''card-18'' Diamonds RQ 10, mk_card ''card-19'' Diamonds RK 10]"

text \<open>The cards of the deck that are not among the given ones, in the order of the deck.\<close>

definition rest_of_deck :: "card list \<Rightarrow> card list" where
  "rest_of_deck used = filter (\<lambda>c. card_id c \<notin> set (map card_id used)) orderedDeck"

text \<open>
  A game as it is after the deal, seat 0 to move: five cards in every hand, the queen of
  hearts on the discard pile, the other 19 cards in the deck.  Seat 2 holds the sevens
  of hearts, diamonds and clubs, no other seat holds a spread, and the seven of spades
  is on top of the deck.  The argument says whether seat 1 has dropped.
\<close>

definition seat0_hand :: "card list" where
  "seat0_hand = [mk_card ''card-0'' Hearts RA 1, mk_card ''card-21'' Clubs R2 2,
                  mk_card ''card-12'' Diamonds R3 3, mk_card ''card-34'' Spades R5 5,
                  mk_card ''card-17'' Diamonds RJ 10]"

definition seat1_hand :: "card list" where
  "seat1_hand = [mk_card ''card-2'' Hearts R3 3, mk_card ''card-23'' Clubs R4 4,
                  mk_card ''card-35'' Spades R6 6, mk_card ''card-18'' Diamonds RQ 10,
                  mk_card ''card-9'' Hearts RK 10]"

definition seat2_hand :: "card list" where
  "seat2_hand = [mk_card ''card-6'' Hearts R7 7, mk_card ''card-16'' Diamonds R7 7,
                  mk_card ''card-26'' Clubs R7 7, mk_card ''card-39'' Spades RK 10,
                  mk_card ''card-20'' Clubs RA 1]"

definition seat3_hand :: "card list" where
  "seat3_hand = [mk_card ''card-14'' Diamonds R5 5, mk_card ''card-27'' Clubs RJ 10,
                  mk_card ''card-1'' Hearts R2 2, mk_card ''card-33'' Spades R4 4,
                  mk_card ''card-28'' Clubs RQ 10]"

definition table_game :: "bool \<Rightarrow> game" where
  "table_game seat1Dropped =
     \<lparr>players =
        [new_player ''u1'' False seat0_hand,
         (new_player ''ai-1'' True seat1_hand)\<lparr>isDropped := seat1Dropped\<rparr>,
         new_player ''ai-2'' True seat2_hand,
         new_player ''ai-3'' True seat3_hand],
      currentPlayerIndex = 0,
      deck = rest_of_deck (seat0_hand @ seat1_hand @ seat2_hand @ seat3_hand
                           @ [mk_card ''card-8'' Hearts RQ 10, mk_card ''card-36'' Spades R7 7])
             @ [mk_card ''card-36'' Spades R7 7],
      discardPile = [mk_card ''card-8'' Hearts RQ 10],
      status = Playing, stake = Num 5, pot = Num 20, winner = None, winningMultiplier = 1,
      lastAction = NoAction\<rparr>"

text \<open>
  The outcomes of \<open>Math.random\<close> for which \<open>createDeck\<close> and \<open>dealCards\<close> produce that
  game: the entry at \<open>k\<close> is the index drawn when \<open>currentIndex\<close> is \<open>k\<close>.
\<close>

definition example_draws :: "nat \<Rightarrow> nat" where
  "example_draws k =
     [0, 0, 1, 0, 2, 1, 0, 1, 2, 8, 9, 6, 0, 12, 1, 12, 2, 6, 2, 14, 8, 1, 20, 9, 17, 16, 0, 18,
      23, 1, 26, 21, 12, 27, 16, 23, 21, 14, 6, 2, 0] ! k"

text \<open>
  The floating-point parameters computed in exact arithmetic (tenths for the draw value
  and the priority, hundredths for the risk), for the examples.
\<close>

definition risk100 :: "game \<Rightarrow> player \<Rightarrow> int" where
  "risk100 g aiPlayer =
     (let activePlayers = filter (\<lambda>p. \<not> isDropped p) (players g);
          otherPlayers = filter (\<lambda>p. player_id p \<noteq> player_id aiPlayer \<and> \<not> isDropped p) (players g)
      in min 100 ((int (length activePlayers) - 1) * 10
           + sum_list (map (\<lambda>p. (if length (hand p) \<le> 3 then 20 else 0)
                                  + (if length (hand p) \<le> 2 then 30 else 0)) otherPlayers)
           + sum_list (map (\<lambda>p. 5 - int (length (hand p))) (players g)) * 2))"

definition tolerance100 :: "difficulty \<Rightarrow> int" where
  "tolerance100 dif = (case dif of Easy \<Rightarrow> 70 | Hard \<Rightarrow> 30 | Medium \<Rightarrow> 50)"

definition exact_ops :: "int float_ops" where
  "exact_ops =
     \<lparr>exceedsThreshold = (\<lambda>completes improves v dif.
          max (0::int) (min 10 ((if completes then 8 else 0) + (if improves then 4 else 0)
                         + (if v \<le> 3 then 3 else if v \<ge> 10 then - 2 else 0)))
          > (case dif of Easy \<Rightarrow> 3 | Medium \<Rightarrow> 5 | Hard \<Rightarrow> 7)),
      priorityOf = (\<lambda>v partOfSpread completes helps.
          v - (if partOfSpread then 5 else 0) - (if completes then 7 else 0)
            - (if helps then 3 else 0)),
      riskBelow = (\<lambda>g p dif. risk100 g p < tolerance100 dif),
      riskBelowHalf = (\<lambda>g p dif. 2 * risk100 g p < tolerance100 dif),
      riskAbove = (\<lambda>g p dif. 2 * risk100 g p > 3 * tolerance100 dif)\<rparr>"

text \<open>
  Arithmetic without rounding on the finite numbers, for the examples, which meet no
  other number (on an infinite or \<open>NaN\<close> operand the result is \<open>NaN\<close> here).  Where the
  exact result is a double, double-precision arithmetic gives the same.
\<close>

definition exact_arith :: number_ops where
  "exact_arith =
     \<lparr>num_mul = (\<lambda>a b. case (a, b) of (Num x, Num y) \<Rightarrow> Num (x * y) | _ \<Rightarrow> NaN),
      num_add = (\<lambda>a b. case (a, b) of (Num x, Num y) \<Rightarrow> Num (x + y) | _ \<Rightarrow> NaN),
      num_sub = (\<lambda>a b. case (a, b) of (Num x, Num y) \<Rightarrow> Num (x - y) | _ \<Rightarrow> NaN)\<rparr>"

text \<open>The payloads of a draw from the deck, a discard and a drop.\<close>

definition draw_request :: action_data where
  "draw_request = \<lparr>cardId = None, cardIds = None, source = Some ''deck''\<rparr>"

definition discard_request :: "string \<Rightarrow> action_data" where
  "discard_request c = \<lparr>cardId = Some c, cardIds = None, source = None\<rparr>"

definition drop_request :: action_data where
  "drop_request = \<lparr>cardId = None, cardIds = None, source = None\<rparr>"

text \<open>
  A session that the human wins by a drop.  The user store knows \<open>u1\<close> with a balance of
  100, and the stake is 5.  \<open>payout_draws\<close> are the outcomes of \<open>Math.random\<close> for which
  the deal gives seat 0 the aces of hearts and diamonds and the twos of hearts, diamonds
  and clubs, 8 points.  \<open>request\<close> is a request of \<open>u1\<close> to \<open>performAction\<close> on the stored
  state, with the AI turns that follow it.  In each of two turns the user draws from the
  deck and discards the drawn card; in the AI turns after the first discard seat 3
  drops, in those after the second seat 2 drops, and \<open>payout_game\<close> is the state stored
  then: seats 0 and 1 are active, and it is the user's turn.
\<close>

definition one_user :: users where
  "one_user = [''u1'' \<mapsto> \<lparr>balance = Num 100, gamesWon = Num 0, totalWinnings = Num 0,
                          gamesPlayed = Num 0, totalWagered = Num 0\<rparr>]"

definition payout_draws :: "nat \<Rightarrow> nat" where
  "payout_draws k =
     [0, 0, 0, 1, 2, 0, 5, 1, 2, 1, 0, 9, 0, 2, 7, 0, 10, 2, 0, 9, 8, 14, 19, 5, 21, 23, 12, 20,
      11, 12, 10, 27, 1, 30, 23, 18, 10, 20, 2, 9, 0] ! k"

definition payout_start :: "users \<times> game" where
  "payout_start = (fst (createGame exact_arith payout_draws one_user ''u1'' (Num 5)),
                   newGame exact_arith payout_draws ''u1'' (Num 5))"

definition request :: "users \<times> game \<Rightarrow> string \<Rightarrow> action_data \<Rightarrow> users \<times> game" where
  "request s action d =
     snd (performAction exact_arith exact_ops payout_draws (\<lambda>t. payout_draws) (fst s) (snd s)
            ''u1'' action d)"

definition payout_game :: "users \<times> game" where
  "payout_game =
     request (request (request (request payout_start ''draw'' draw_request)
                         ''discard'' (discard_request ''card-38''))
                ''draw'' draw_request)
       ''discard'' (discard_request ''card-17'')"

text \<open>The players' \<open>hasDrawn\<close> flags overwritten by an arbitrary function of the player.\<close>

definition set_hasDrawn :: "(player \<Rightarrow> bool) \<Rightarrow> game \<Rightarrow> game" where
  "set_hasDrawn f g = g\<lparr>players := map (\<lambda>p. p\<lparr>hasDrawn := f p\<rparr>) (players g)\<rparr>"

section \<open>Lemmas on the helpers\<close>

lemma findIndex_map: "findIndex P (map h xs) = findIndex (\<lambda>x. P (h x)) xs"
  by (induction xs) auto

lemma findIndex_less: "findIndex P xs = Some i \<Longrightarrow> i < length xs"
  by (induction xs arbitrary: i) (auto split: if_splits)

lemma findIndex_holds: "findIndex P xs = Some i \<Longrightarrow> P (xs ! i)"
  by (induction xs arbitrary: i) (auto split: if_splits)

lemma update_player_fields [simp]:
  "players (update_player i f g) = (players g)[i := f (players g ! i)]"
  "deck (update_player i f g) = deck g"
  "discardPile (update_player i f g) = discardPile g"
  "status (update_player i f g) = status g"
  "stake (update_player i f g) = stake g"
  "pot (update_player i f g) = pot g"
  "currentPlayerIndex (update_player i f g) = currentPlayerIndex g"
  by (simp_all add: update_player_def)

lemma finish_draw_fields [simp]:
  "deck (finish_draw i g) = deck g"
  "discardPile (finish_draw i g) = discardPile g"
  "status (finish_draw i g) = status g"
  "stake (finish_draw i g) = stake g"
  "pot (finish_draw i g) = pot g"
  "currentPlayerIndex (finish_draw i g) = currentPlayerIndex g"
  "length (players (finish_draw i g)) = length (players g)"
  by (simp_all add: finish_draw_def)

lemma finish_draw_player:
  "j < length (players g) \<Longrightarrow>
   hand (players (finish_draw i g) ! j) = hand (players g ! j)
   \<and> isDropped (players (finish_draw i g) ! j) = isDropped (players g ! j)
   \<and> player_id (players (finish_draw i g) ! j) = player_id (players g ! j)
   \<and> isAI (players (finish_draw i g) ! j) = isAI (players g ! j)
   \<and> penalties (players (finish_draw i g) ! j) = penalties (players g ! j)
   \<and> hitCount (players (finish_draw i g) ! j) = hitCount (players g ! j)
   \<and> (j \<noteq> i \<longrightarrow> players (finish_draw i g) ! j = players g ! j)"
  by (cases "j = i") (simp_all add: finish_draw_def)

lemma hit_step_player:
  "hand (fst (hit_step ps c d p)) = hand p"
  "isDropped (fst (hit_step ps c d p)) = isDropped p"
  "player_id (fst (hit_step ps c d p)) = player_id p"
  "isAI (fst (hit_step ps c d p)) = isAI p"
  "score (fst (hit_step ps c d p)) = score p"
  "hasDrawn (fst (hit_step ps c d p)) = hasDrawn p"
  "canDrop (fst (hit_step ps c d p)) = canDrop p"
  by (simp_all add: hit_step_def split: option.splits)

lemma applyHitPenalties_fields [simp]:
  "deck (fst (applyHitPenalties g c d)) = deck g"
  "discardPile (fst (applyHitPenalties g c d)) = discardPile g"
  "status (fst (applyHitPenalties g c d)) = status g"
  "stake (fst (applyHitPenalties g c d)) = stake g"
  "pot (fst (applyHitPenalties g c d)) = pot g"
  "currentPlayerIndex (fst (applyHitPenalties g c d)) = currentPlayerIndex g"
  "length (players (fst (applyHitPenalties g c d))) = length (players g)"
  by (simp_all add: applyHitPenalties_def)

lemma applyHitPenalties_player:
  "j < length (players g) \<Longrightarrow>
   hand (players (fst (applyHitPenalties g c d)) ! j) = hand (players g ! j)
   \<and> isDropped (players (fst (applyHitPenalties g c d)) ! j) = isDropped (players g ! j)
   \<and> player_id (players (fst (applyHitPenalties g c d)) ! j) = player_id (players g ! j)
   \<and> isAI (players (fst (applyHitPenalties g c d)) ! j) = isAI (players g ! j)
   \<and> score (players (fst (applyHitPenalties g c d)) ! j) = score (players g ! j)"
  by (simp add: applyHitPenalties_def hit_step_player)

lemma mset_shuffle_loop: "k \<le> length xs \<Longrightarrow> mset (shuffle_loop rnd k xs) = mset xs"
proof (induction k arbitrary: xs)
  case 0
  then show ?case by simp
next
  case (Suc k)
  let ?j = "rnd (Suc k) mod Suc k"
  have j: "?j < length xs"
    using Suc.prems by (meson Suc_le_lessD less_Suc_eq_le mod_less_divisor order_less_le_trans zero_less_Suc)
  have k: "k < length xs" using Suc.prems by simp
  have "mset (shuffle_loop rnd k (xs[k := xs ! ?j, ?j := xs ! k])) = mset (xs[k := xs ! ?j, ?j := xs ! k])"
    using Suc.prems by (intro Suc.IH) simp
  also have "\<dots> = mset xs" by (rule mset_swap [OF j k])
  finally show ?case by (simp add: Let_def)
qed

lemma mset_shuffle: "mset (shuffle rnd xs) = mset xs"
  by (simp add: shuffle_def mset_shuffle_loop)

lemma mset_reshuffleDeck:
  "mset (fst (reshuffleDeck rnd d dp)) + mset (snd (reshuffleDeck rnd d dp)) = mset d + mset dp"
proof (cases dp)
  case Nil
  then show ?thesis by (simp add: reshuffleDeck_def)
next
  case (Cons x xs)
  then show ?thesis by (simp add: reshuffleDeck_def mset_shuffle)
qed

lemma mset_deck_before_draw:
  "mset (fst (deck_before_draw rnd g)) + mset (snd (deck_before_draw rnd g))
     = mset (deck g) + mset (discardPile g)"
  by (simp add: deck_before_draw_def mset_reshuffleDeck)

lemma mset_butlast_last: "xs \<noteq> [] \<Longrightarrow> mset (butlast xs) + {#last xs#} = mset xs"
  by (induction xs) auto

lemma handleDraw_Inr:
  assumes "handleDraw rnd g i fromDiscard = Inr g'"
  shows "i < length (players g) \<and> length (players g') = length (players g)
     \<and> status g' = status g \<and> stake g' = stake g \<and> pot g' = pot g
     \<and> currentPlayerIndex g' = currentPlayerIndex g
     \<and> (\<exists>c. mset (deck g') + mset (discardPile g') + {#c#} = mset (deck g) + mset (discardPile g)
          \<and> (\<forall>j < length (players g).
                hand (players g' ! j) = (if j = i then hand (players g ! j) @ [c] else hand (players g ! j))
                \<and> isDropped (players g' ! j) = isDropped (players g ! j)
                \<and> player_id (players g' ! j) = player_id (players g ! j)
                \<and> isAI (players g' ! j) = isAI (players g ! j)
                \<and> (j \<noteq> i \<longrightarrow> score (players g' ! j) = score (players g ! j))))"
proof (cases fromDiscard)
  case True
  with assms obtain c rest where dp: "discardPile g = c # rest" and i: "i < length (players g)"
    and g': "g' = finish_draw i (update_player i (\<lambda>p. p\<lparr>hand := hand p @ [c]\<rparr>) (g\<lparr>discardPile := rest\<rparr>))"
    by (auto simp: handleDraw_def split: list.splits if_splits)
  have "\<forall>j < length (players g).
          hand (players g' ! j) = (if j = i then hand (players g ! j) @ [c] else hand (players g ! j))
          \<and> isDropped (players g' ! j) = isDropped (players g ! j)
          \<and> player_id (players g' ! j) = player_id (players g ! j)
          \<and> isAI (players g' ! j) = isAI (players g ! j)
          \<and> (j \<noteq> i \<longrightarrow> score (players g' ! j) = score (players g ! j))"
    using i by (simp add: g' finish_draw_player nth_list_update)
  moreover have "mset (deck g') + mset (discardPile g') + {#c#} = mset (deck g) + mset (discardPile g)"
    by (simp add: g' dp)
  ultimately show ?thesis using i by (auto simp: g')
next
  case False
  let ?d = "fst (deck_before_draw rnd g)"
  from assms False have ne: "?d \<noteq> []" and i: "i < length (players g)"
    by (auto simp: handleDraw_def Let_def split: if_splits)
  from assms False ne i obtain g3 where g': "g' = finish_draw i g3"
    and l3: "length (players g3) = length (players g)"
    and d3: "deck g3 = butlast ?d" and dp3: "discardPile g3 = snd (deck_before_draw rnd g)"
    and f3: "status g3 = status g" "stake g3 = stake g" "pot g3 = pot g"
            "currentPlayerIndex g3 = currentPlayerIndex g"
    and p3: "\<forall>j < length (players g).
              hand (players g3 ! j) = (if j = i then hand (players g ! j) @ [last ?d] else hand (players g ! j))
              \<and> isDropped (players g3 ! j) = isDropped (players g ! j)
              \<and> player_id (players g3 ! j) = player_id (players g ! j)
              \<and> isAI (players g3 ! j) = isAI (players g ! j)
              \<and> score (players g3 ! j) = score (players g ! j)"
    apply (simp add: handleDraw_def Let_def split: if_splits)
    apply (auto simp: applyHitPenalties_player nth_list_update)
    done
  have m: "mset (deck g') + mset (discardPile g') + {#last ?d#} = mset (deck g) + mset (discardPile g)"
    using mset_deck_before_draw [of rnd g] mset_butlast_last [OF ne]
    by (simp add: g' d3 dp3 ac_simps)
  have "\<forall>j < length (players g).
          hand (players g' ! j) = (if j = i then hand (players g ! j) @ [last ?d] else hand (players g ! j))
          \<and> isDropped (players g' ! j) = isDropped (players g ! j)
          \<and> player_id (players g' ! j) = player_id (players g ! j)
          \<and> isAI (players g' ! j) = isAI (players g ! j)
          \<and> (j \<noteq> i \<longrightarrow> score (players g' ! j) = score (players g ! j))"
    using p3 l3 by (simp add: g' finish_draw_player)
  with m show ?thesis using i l3 f3 by (auto simp: g')
qed


lemma decrement_penalty_player:
  "hand (decrement_penalty p) = hand p"
  "isDropped (decrement_penalty p) = isDropped p"
  "player_id (decrement_penalty p) = player_id p"
  "isAI (decrement_penalty p) = isAI p"
  "score (decrement_penalty p) = score p"
  "hitCount (decrement_penalty p) = hitCount p"
  "penalties (decrement_penalty p) = (if penalties p > 0 then penalties p - 1 else penalties p)"
  by (simp_all add: decrement_penalty_def Let_def)

lemma handleDiscard_Inr:
  assumes "handleDiscard g i cid = Inr g'"
  shows "i < length (players g) \<and> length (players g') = length (players g)
     \<and> status g' = status g \<and> stake g' = stake g \<and> pot g' = pot g \<and> deck g' = deck g
     \<and> (\<exists>k. findIndex (\<lambda>c. card_id c = cid) (hand (players g ! i)) = Some k
          \<and> discardPile g' = hand (players g ! i) ! k # discardPile g
          \<and> (\<forall>j < length (players g).
                hand (players g' ! j) = (if j = i then splice1 k (hand (players g ! j)) else hand (players g ! j))
                \<and> isDropped (players g' ! j) = isDropped (players g ! j)
                \<and> player_id (players g' ! j) = player_id (players g ! j)
                \<and> isAI (players g' ! j) = isAI (players g ! j)
                \<and> penalties (players g' ! j)
                    = (if penalties (players g ! j) > 0 then penalties (players g ! j) - 1
                       else penalties (players g ! j))
                \<and> (j \<noteq> i \<longrightarrow> score (players g' ! j) = score (players g ! j))))"
proof -
  from assms have i: "i < length (players g)"
    by (auto simp: handleDiscard_def split: if_splits)
  with assms obtain k where k: "findIndex (\<lambda>c. card_id c = cid) (hand (players g ! i)) = Some k"
    by (auto simp: handleDiscard_def Let_def split: option.splits)
  show ?thesis
    using assms i k
    by (auto simp: handleDiscard_def Let_def decrement_penalty_player nth_list_update)
qed

lemma fold_count_game_balance:
  "map_option balance (fold (count_game ar st) ps us k) = map_option balance (us k)"
  by (induction ps arbitrary: us) (auto simp: count_game_def split: option.splits)

lemma endGame_game:
  "snd (endGame ar us g w m) = g\<lparr>status := Ended, winner := Some w, winningMultiplier := m\<rparr>"
  by (simp add: endGame_def Let_def)

lemma endGame_balance:
  "map_option balance (fst (endGame ar us g w m) k) =
     (if k = w \<and> \<not> startsWith w ''ai-'' then map_option (\<lambda>u. num_add ar (balance u) (num_mul ar (pot g) (Num (of_int m)))) (us k)
      else map_option balance (us k))"
  by (auto simp: endGame_def Let_def fold_count_game_balance credit_winner_def split: option.splits)

lemma handleDrop_eq:
  "i < length (players g) \<Longrightarrow>
   handleDrop ar us g i =
     (if length (filter (\<lambda>q. \<not> isDropped q) (players (dropped_game g i))) \<le> 1
      then Inr (endGame ar us (dropped_game g i) (player_id (players g ! i))
                  (calculateWinningMultiplier (calculateHandScore (hand (players g ! i))) (isFirstTurnFor g i)))
      else Inr (us, (dropped_game g i)\<lparr>currentPlayerIndex := getNextActivePlayer (dropped_game g i) i\<rparr>))"
  by (simp add: handleDrop_def Let_def dropped_game_def isFirstTurnFor_def update_player_def)

lemma dropped_game_fields [simp]:
  "length (players (dropped_game g i)) = length (players g)"
  "deck (dropped_game g i) = deck g"
  "discardPile (dropped_game g i) = discardPile g"
  "status (dropped_game g i) = status g"
  "stake (dropped_game g i) = stake g"
  "pot (dropped_game g i) = pot g"
  by (simp_all add: dropped_game_def)

lemma dropped_game_player:
  "j < length (players g) \<Longrightarrow>
   hand (players (dropped_game g i) ! j) = hand (players g ! j)
   \<and> player_id (players (dropped_game g i) ! j) = player_id (players g ! j)
   \<and> isAI (players (dropped_game g i) ! j) = isAI (players g ! j)
   \<and> penalties (players (dropped_game g i) ! j) = penalties (players g ! j)
   \<and> isDropped (players (dropped_game g i) ! j) = (j = i \<or> isDropped (players g ! j))
   \<and> score (players (dropped_game g i) ! j)
       = (if j = i then calculateHandScore (hand (players g ! j)) else score (players g ! j))"
  by (cases "j = i") (simp_all add: dropped_game_def)

lemma handleDrop_Inr:
  assumes "handleDrop ar us g i = Inr (us', g')"
  shows "i < length (players g) \<and> length (players g') = length (players g)
     \<and> stake g' = stake g \<and> pot g' = pot g \<and> deck g' = deck g \<and> discardPile g' = discardPile g
     \<and> (status g' = status g \<or> status g' = Ended)
     \<and> (\<forall>j < length (players g).
           hand (players g' ! j) = hand (players g ! j)
           \<and> player_id (players g' ! j) = player_id (players g ! j)
           \<and> isAI (players g' ! j) = isAI (players g ! j)
           \<and> penalties (players g' ! j) = penalties (players g ! j)
           \<and> isDropped (players g' ! j) = (j = i \<or> isDropped (players g ! j))
           \<and> score (players g' ! j)
               = (if j = i then calculateHandScore (hand (players g ! j)) else score (players g ! j)))"
proof -
  from assms have i: "i < length (players g)"
    by (auto simp: handleDrop_def split: if_splits)
  let ?m = "calculateWinningMultiplier (calculateHandScore (hand (players g ! i))) (isFirstTurnFor g i)"
  from assms i have
    "g' = (dropped_game g i)\<lparr>status := Ended, winner := Some (player_id (players g ! i)),
                               winningMultiplier := ?m\<rparr>
     \<or> g' = (dropped_game g i)\<lparr>currentPlayerIndex := getNextActivePlayer (dropped_game g i) i\<rparr>"
    using endGame_game [of ar us "dropped_game g i" "player_id (players g ! i)" ?m]
    by (auto simp: handleDrop_eq split: if_splits)
  then show ?thesis
    using i dropped_game_player [of _ g i] by auto
qed

lemma reachable_pot: "reachable ar g \<Longrightarrow> pot g = num_mul ar (stake g) (Num 4)"
proof (induction rule: reachable.induct)
  case (created rnd userId st)
  then show ?case by (simp add: newGame_def Let_def)
next
  case (draw g rnd i fromDiscard g')
  then show ?case using handleDraw_Inr [of rnd g i fromDiscard g'] by simp
next
  case (discard g i cid g')
  then show ?case using handleDiscard_Inr [of g i cid g'] by simp
next
  case (reshuffle g rnd)
  then show ?case by simp
next
  case (drop g us i us' g')
  then show ?case using handleDrop_Inr [of ar us g i us' g'] by simp
qed

lemma set_insert_by: "set (insert_by le x ys) = insert x (set ys)"
  by (induction ys) auto

lemma set_sort_by: "set (sort_by le xs) = set xs"
  by (induction xs) (auto simp: set_insert_by)

lemma findIndex_None_iff: "findIndex P xs = None \<longleftrightarrow> (\<forall>x \<in> set xs. \<not> P x)"
  by (induction xs) auto

lemma decideCardToDiscard_member:
  assumes "h \<noteq> []"
  shows "\<exists>c \<in> set h. decideCardToDiscard fl h g dif = Some (card_id c)"
proof (cases "length h = 1")
  case True
  then show ?thesis using assms by (auto simp: decideCardToDiscard_def intro!: bexI [of _ "hd h"])
next
  case False
  let ?sorted = "sort_by (\<lambda>a b. snd b \<le> snd a) (analyzeDiscardCandidates fl h g dif)"
  show ?thesis
  proof (cases ?sorted)
    case Nil
    then show ?thesis using assms False
      by (auto simp: decideCardToDiscard_def intro!: bexI [of _ "hd h"])
  next
    case (Cons c0 rest)
    then have "c0 \<in> set ?sorted" by simp
    then have "c0 \<in> set (analyzeDiscardCandidates fl h g dif)" by (simp add: set_sort_by)
    then have m: "fst c0 \<in> set h" by (auto simp: analyzeDiscardCandidates_def)
    have "hd h \<in> set h" using assms by simp
    with m show ?thesis using assms False Cons
      by (auto simp: decideCardToDiscard_def)
  qed
qed

lemma handleDiscard_succeeds:
  assumes "i < length (players g)" "c \<in> set (hand (players g ! i))"
  shows "\<exists>g'. handleDiscard g i (card_id c) = Inr g'"
proof -
  have "findIndex (\<lambda>x. card_id x = card_id c) (hand (players g ! i)) \<noteq> None"
    using assms(2) by (auto simp: findIndex_None_iff)
  then show ?thesis using assms(1)
    by (auto simp: handleDiscard_def Let_def)
qed

lemma mset_concat_update:
  "i < length hs \<Longrightarrow> mset (concat (hs[i := x])) + mset (hs ! i) = mset (concat hs) + mset x"
proof (induction hs arbitrary: i)
  case Nil
  then show ?case by simp
next
  case (Cons h hs)
  show ?case
  proof (cases i)
    case 0
    then show ?thesis by simp
  next
    case (Suc k)
    with Cons.prems have "k < length hs" by simp
    from Cons.IH [OF this] show ?thesis using Suc by (simp add: ac_simps)
  qed
qed

lemma mset_splice1: "k < length xs \<Longrightarrow> mset (splice1 k xs) + {#xs ! k#} = mset xs"
proof -
  assume k: "k < length xs"
  have "mset xs = mset (take k xs @ xs ! k # drop (Suc k) xs)"
    using id_take_nth_drop [OF k] by simp
  then show ?thesis by (simp add: splice1_def)
qed

lemma hands_update:
  assumes "length ps' = length ps" "i < length ps"
    and "\<forall>j < length ps. hand (ps' ! j) = (if j = i then x else hand (ps ! j))"
  shows "map hand ps' = (map hand ps)[i := x]"
  using assms by (intro nth_equalityI) (auto simp: nth_list_update)

lemma hands_same:
  assumes "length ps' = length ps" "\<forall>j < length ps. hand (ps' ! j) = hand (ps ! j)"
  shows "map hand ps' = map hand ps"
  using assms by (intro nth_equalityI) auto

lemma handleDraw_all_cards:
  assumes "handleDraw rnd g i fromDiscard = Inr g'"
  shows "mset (all_cards g') = mset (all_cards g)"
proof -
  from handleDraw_Inr [OF assms] obtain c where i: "i < length (players g)"
    and l: "length (players g') = length (players g)"
    and m: "mset (deck g') + mset (discardPile g') + {#c#} = mset (deck g) + mset (discardPile g)"
    and h: "\<forall>j < length (players g).
              hand (players g' ! j) = (if j = i then hand (players g ! i) @ [c] else hand (players g ! j))"
    by auto
  have "map hand (players g') = (map hand (players g))[i := hand (players g ! i) @ [c]]"
    using l i h by (rule hands_update)
  then have "mset (concat (map hand (players g'))) + mset (hand (players g ! i))
              = mset (concat (map hand (players g))) + mset (hand (players g ! i) @ [c])"
    using mset_concat_update [of i "map hand (players g)" "hand (players g ! i) @ [c]"] i by simp
  then have "mset (concat (map hand (players g'))) = mset (concat (map hand (players g))) + {#c#}"
    by simp
  with m show ?thesis by (simp add: all_cards_def ac_simps)
qed

lemma handleDiscard_all_cards:
  assumes "handleDiscard g i cid = Inr g'"
  shows "mset (all_cards g') = mset (all_cards g)"
proof -
  from handleDiscard_Inr [OF assms] obtain k where i: "i < length (players g)"
    and l: "length (players g') = length (players g)"
    and d: "deck g' = deck g"
    and k: "findIndex (\<lambda>c. card_id c = cid) (hand (players g ! i)) = Some k"
    and dp: "discardPile g' = hand (players g ! i) ! k # discardPile g"
    and h: "\<forall>j < length (players g).
              hand (players g' ! j) = (if j = i then splice1 k (hand (players g ! i)) else hand (players g ! j))"
    by auto
  have kl: "k < length (hand (players g ! i))" using k by (rule findIndex_less)
  have "map hand (players g') = (map hand (players g))[i := splice1 k (hand (players g ! i))]"
    using l i h by (rule hands_update)
  then have "mset (concat (map hand (players g'))) + mset (hand (players g ! i))
              = mset (concat (map hand (players g))) + mset (splice1 k (hand (players g ! i)))"
    using mset_concat_update [of i "map hand (players g)" "splice1 k (hand (players g ! i))"] i by simp
  then have "mset (concat (map hand (players g')))
                + (mset (splice1 k (hand (players g ! i))) + {#hand (players g ! i) ! k#})
              = mset (concat (map hand (players g))) + mset (splice1 k (hand (players g ! i)))"
    by (simp only: mset_splice1 [OF kl])
  then have "mset (concat (map hand (players g'))) + {#hand (players g ! i) ! k#}
              = mset (concat (map hand (players g)))"
    by simp
  then show ?thesis by (simp add: all_cards_def d dp ac_simps)
qed

lemma handleDrop_all_cards:
  assumes "handleDrop ar us g i = Inr (us', g')"
  shows "all_cards g' = all_cards g"
proof -
  from handleDrop_Inr [OF assms] have l: "length (players g') = length (players g)"
    and d: "deck g' = deck g" "discardPile g' = discardPile g"
    and h: "\<forall>j < length (players g). hand (players g' ! j) = hand (players g ! j)"
    by auto
  have "map hand (players g') = map hand (players g)" using l h by (rule hands_same)
  then show ?thesis by (simp add: all_cards_def d)
qed

lemma deal_one_mset:
  "j < length (fst st) \<Longrightarrow>
   mset (concat (fst (deal_one j st))) + mset (snd (deal_one j st)) = mset (concat (fst st)) + mset (snd st)
   \<and> length (fst (deal_one j st)) = length (fst st)
   \<and> length (snd (deal_one j st)) = length (snd st) - 1"
proof (cases st)
  case (Pair hands d)
  assume j: "j < length (fst st)"
  show ?thesis
  proof (cases "d = []")
    case True
    then show ?thesis using Pair by (simp add: deal_one_def)
  next
    case False
    have "mset (concat (hands[j := hands ! j @ [last d]])) + mset (hands ! j)
            = mset (concat hands) + mset (hands ! j @ [last d])"
      using j Pair by (intro mset_concat_update) simp
    then have "mset (concat (hands[j := hands ! j @ [last d]])) = mset (concat hands) + {#last d#}"
      by simp
    then show ?thesis using Pair False mset_butlast_last [OF False]
      by (simp add: deal_one_def ac_simps)
  qed
qed

lemma deal_round_mset:
  "\<forall>j \<in> set js. j < length (fst st) \<Longrightarrow>
   mset (concat (fst (fold deal_one js st))) + mset (snd (fold deal_one js st))
     = mset (concat (fst st)) + mset (snd st)
   \<and> length (fst (fold deal_one js st)) = length (fst st)
   \<and> length (snd (fold deal_one js st)) = length (snd st) - length js"
proof (induction js arbitrary: st)
  case Nil
  then show ?case by simp
next
  case (Cons j js)
  then have j: "j < length (fst st)" by simp
  note o = deal_one_mset [OF j]
  have "\<forall>k \<in> set js. k < length (fst (deal_one j st))" using Cons.prems o by simp
  from Cons.IH [OF this] show ?case using o by simp
qed

lemma deal_rounds_mset:
  "length (fst st) = n \<Longrightarrow>
   mset (concat (fst (fold (\<lambda>i. fold deal_one [0..<n]) rs st)))
      + mset (snd (fold (\<lambda>i. fold deal_one [0..<n]) rs st))
     = mset (concat (fst st)) + mset (snd st)
   \<and> length (fst (fold (\<lambda>i. fold deal_one [0..<n]) rs st)) = n
   \<and> length (snd (fold (\<lambda>i. fold deal_one [0..<n]) rs st)) = length (snd st) - length rs * n"
proof (induction rs arbitrary: st)
  case Nil
  then show ?case by simp
next
  case (Cons r rs)
  have "\<forall>j \<in> set [0..<n]. j < length (fst st)" using Cons.prems by simp
  note o = deal_round_mset [OF this]
  have "length (fst (fold deal_one [0..<n] st)) = n" using o Cons.prems by simp
  from Cons.IH [OF this] show ?case using o by (simp add: ac_simps)
qed

lemma dealCards_mset:
  "mset (concat (fst (dealCards d n))) + mset (snd (dealCards d n)) = mset d
   \<and> length (fst (dealCards d n)) = n
   \<and> length (snd (dealCards d n)) = length d - 5 * n"
  using deal_rounds_mset [of "(replicate n [], d)" n "[0..<5]"]
  by (simp add: dealCards_def)

lemma length_orderedDeck: "length orderedDeck = 40"
  by (simp add: orderedDeck_def suits_def ranks_def)

lemma distinct_orderedDeck: "distinct (map card_id orderedDeck)"
  by code_simp

lemma length_createDeck: "length (createDeck rnd) = 40"
  using mset_shuffle [of rnd orderedDeck] length_orderedDeck
  by (metis createDeck_def size_mset)

lemma four_elements: "length xs = 4 \<Longrightarrow> xs = [xs ! 0, xs ! 1, xs ! 2, xs ! 3]"
  by (auto simp: numeral_eq_Suc length_Suc_conv)

lemma newGame_all_cards: "mset (all_cards (newGame ar rnd userId st)) = mset orderedDeck"
proof -
  let ?dealt = "dealCards (createDeck rnd) 4"
  have m: "mset (concat (fst ?dealt)) + mset (snd ?dealt) = mset (createDeck rnd)"
    and l: "length (fst ?dealt) = 4" and r: "length (snd ?dealt) = 20"
    using dealCards_mset [of "createDeck rnd" 4] length_createDeck [of rnd] by simp_all
  have ne: "snd ?dealt \<noteq> []" using r by auto
  have c: "concat (fst ?dealt) = fst ?dealt ! 0 @ fst ?dealt ! 1 @ fst ?dealt ! 2 @ fst ?dealt ! 3"
    using four_elements [OF l] by (metis append_Nil2 concat.simps(1) concat.simps(2))
  have "mset (all_cards (newGame ar rnd userId st)) = mset (concat (fst ?dealt)) + mset (snd ?dealt)"
    using mset_butlast_last [OF ne]
    by (simp add: all_cards_def newGame_def Let_def new_player_def c ac_simps)
  then show ?thesis using m by (simp add: createDeck_def mset_shuffle)
qed

lemma reachable_all_cards: "reachable ar g \<Longrightarrow> mset (all_cards g) = mset orderedDeck"
proof (induction rule: reachable.induct)
  case (created rnd userId st)
  show ?case by (rule newGame_all_cards)
next
  case (draw g rnd i fromDiscard g')
  then show ?case using handleDraw_all_cards [of rnd g i fromDiscard g'] by simp
next
  case (discard g i cid g')
  then show ?case using handleDiscard_all_cards [of g i cid g'] by simp
next
  case (reshuffle g rnd)
  then show ?case
    using mset_reshuffleDeck [of rnd "deck g" "discardPile g"]
    by (simp add: all_cards_def ac_simps)
next
  case (drop g us i us' g')
  then show ?case using handleDrop_all_cards [of ar us g i us' g'] by simp
qed

lemma keeps_dropped_refl: "keeps_dropped g g"
  by (simp add: keeps_dropped_def)

lemma keeps_dropped_trans: "keeps_dropped g g1 \<Longrightarrow> keeps_dropped g1 g2 \<Longrightarrow> keeps_dropped g g2"
  by (simp add: keeps_dropped_def)

lemma handleDraw_keeps:
  assumes "handleDraw rnd g i fromDiscard = Inr g'" "\<not> isDropped (players g ! i)"
  shows "keeps_dropped g g'" and "i < length (players g')" and "\<not> isDropped (players g' ! i)"
    and "status g' = status g"
  using handleDraw_Inr [OF assms(1)] assms(2) by (auto simp: keeps_dropped_def)

lemma handleDiscard_keeps:
  assumes "handleDiscard g i cid = Inr g'" "\<not> isDropped (players g ! i)"
  shows "keeps_dropped g g'" and "i < length (players g')" and "\<not> isDropped (players g' ! i)"
    and "status g' = status g"
  using handleDiscard_Inr [OF assms(1)] assms(2) by (auto simp: keeps_dropped_def)

lemma handleDrop_keeps:
  assumes "handleDrop ar us g i = Inr (us', g')" "\<not> isDropped (players g ! i)"
  shows "keeps_dropped g g'"
  using handleDrop_Inr [OF assms(1)] assms(2) by (auto simp: keeps_dropped_def)

lemma processAITurns_loop_keeps:
  "processAITurns_loop ar fl rnds n us g cpi = Inr (us', g') \<Longrightarrow> keeps_dropped g g'"
proof (induction n arbitrary: us g cpi)
  case 0
  then show ?case by (auto simp: keeps_dropped_refl split: if_splits)
next
  case (Suc n)
  show ?case
  proof (cases "status g \<noteq> Playing \<or> \<not> isAI (players g ! cpi)")
    case True
    with Suc.prems show ?thesis by (auto simp: keeps_dropped_refl split: if_splits)
  next
    case False
    then have pl: "status g = Playing" "isAI (players g ! cpi)" by auto
    from Suc.prems pl have cl: "cpi < length (players g)" by (auto split: if_splits)
    show ?thesis
    proof (cases "isDropped (players g ! cpi)")
      case True
      with Suc.prems pl cl
      have "processAITurns_loop ar fl rnds n us g (getNextActivePlayer g cpi) = Inr (us', g')"
        by simp
      then show ?thesis by (rule Suc.IH)
    next
      case nd: False
      let ?dif = "getAIPersonality (player_id (players g ! cpi))"
      let ?src = "decideDrawSource fl g (players g ! cpi) ?dif"
      from Suc.prems pl cl nd obtain g1 where d: "handleDraw (rnds (Suc n)) g cpi (?src = ''discard'') = Inr g1"
        by (auto simp: Let_def split: sum.splits)
      note k1 = handleDraw_keeps [OF d nd]
      from Suc.prems pl cl nd d obtain cardToDiscard where
        c: "decideCardToDiscard fl (hand (players g1 ! cpi)) g1 ?dif = Some cardToDiscard"
        by (auto simp: Let_def split: option.splits)
      from Suc.prems pl cl nd d c obtain g2 where e: "handleDiscard g1 cpi cardToDiscard = Inr g2"
        by (auto simp: Let_def split: if_splits sum.splits)
      note k2 = handleDiscard_keeps [OF e k1(3)]
      have k02: "keeps_dropped g g2" using k1(1) k2(1) by (rule keeps_dropped_trans)
      from Suc.prems pl cl nd d c e have rest:
        "(if canDrop (players g2 ! cpi) \<and> shouldDrop fl (players g2 ! cpi) g2 ?dif
            then handleDrop ar us g2 cpi
          else if length (filter (\<lambda>p. \<not> isAI p \<and> \<not> isDropped p) (players g2)) = 0
            then (case findIndex (\<lambda>p. isAI p \<and> \<not> isDropped p) (players g2) of
                    Some aiIndex \<Rightarrow> handleDrop ar us g2 aiIndex
                  | None \<Rightarrow> Inr (us, g2))
          else processAITurns_loop ar fl rnds n us g2 (currentPlayerIndex g2)) = Inr (us', g')"
        by (auto simp: Let_def split: if_splits)
      have "keeps_dropped g2 g'"
      proof (cases "canDrop (players g2 ! cpi) \<and> shouldDrop fl (players g2 ! cpi) g2 ?dif")
        case True
        with rest have "handleDrop ar us g2 cpi = Inr (us', g')" by simp
        then show ?thesis using k2(3) by (rule handleDrop_keeps)
      next
        case nodrop: False
        show ?thesis
        proof (cases "length (filter (\<lambda>p. \<not> isAI p \<and> \<not> isDropped p) (players g2)) = 0")
          case True
          show ?thesis
          proof (cases "findIndex (\<lambda>p. isAI p \<and> \<not> isDropped p) (players g2)")
            case None
            with rest nodrop True show ?thesis by (simp add: keeps_dropped_refl)
          next
            case (Some aiIndex)
            then have "\<not> isDropped (players g2 ! aiIndex)"
              using findIndex_holds [OF Some] by simp
            moreover from rest nodrop True Some have "handleDrop ar us g2 aiIndex = Inr (us', g')"
              by simp
            ultimately show ?thesis by (intro handleDrop_keeps)
          qed
        next
          case False
          with rest nodrop have "processAITurns_loop ar fl rnds n us g2 (currentPlayerIndex g2) = Inr (us', g')"
            by simp
          then show ?thesis by (rule Suc.IH)
        qed
      qed
      with k02 show ?thesis by (rule keeps_dropped_trans)
    qed
  qed
qed

lemma valid_move_not_dropped:
  assumes "isValidMove g userId action d = Valid"
    and "findIndex (\<lambda>p. player_id p = userId) (players g) = Some i"
  shows "\<not> isDropped (players g ! i)"
  using assms by (auto simp: isValidMove_def Let_def split: if_splits)

lemma process_action_keeps:
  assumes "process_action ar rnd us g i action d = Some (Inr (us1, g1))" "\<not> isDropped (players g ! i)"
  shows "keeps_dropped g g1"
proof -
  consider (draw) "action = ''draw''" | (discard) "action \<noteq> ''draw''" "action = ''discard''"
    | (drop) "action \<noteq> ''draw''" "action \<noteq> ''discard''" "action = ''drop''"
    | (other) "action \<noteq> ''draw''" "action \<noteq> ''discard''" "action \<noteq> ''drop''"
    by blast
  then show ?thesis
  proof cases
    case draw
    with assms(1) have "handleDraw rnd g i (source d = Some ''discard'') = Inr g1"
      by (cases "handleDraw rnd g i (source d = Some ''discard'')") (auto simp: process_action_def)
    then show ?thesis using assms(2) by (rule handleDraw_keeps)
  next
    case discard
    with assms(1) obtain c where "handleDiscard g i c = Inr g1"
      by (cases "cardId d"; cases "handleDiscard g i (the (cardId d))")
         (auto simp: process_action_def split: if_splits)
    then show ?thesis using assms(2) by (rule handleDiscard_keeps)
  next
    case drop
    with assms(1) have "handleDrop ar us g i = Inr (us1, g1)"
      by (simp add: process_action_def)
    then show ?thesis using assms(2) by (rule handleDrop_keeps)
  next
    case other
    with assms(1) show ?thesis
      by (auto simp: process_action_def handleSpread_def split: if_splits)
  qed
qed

lemma performAction_keeps:
  assumes "performAction ar fl rnd rnds us g userId action d = (r, us', g')"
  shows "keeps_dropped g g'"
proof (cases "g' = g")
  case True
  then show ?thesis by (simp add: keeps_dropped_refl)
next
  case False
  with assms obtain i where fi: "findIndex (\<lambda>p. player_id p = userId) (players g) = Some i"
    by (auto simp: performAction_def split: if_splits option.splits)
  from assms False fi have v: "isValidMove g userId action d = Valid"
    by (auto simp: performAction_def split: if_splits validation.splits)
  from assms False fi v obtain us1 g1 where
    pa: "process_action ar rnd us g i action d = Some (Inr (us1, g1))"
    by (auto simp: performAction_def split: if_splits option.splits sum.splits)
  have k1: "keeps_dropped g g1"
    using pa valid_move_not_dropped [OF v fi] by (rule process_action_keeps)
  show ?thesis
  proof (cases "status g1 = Playing")
    case True
    with assms False fi v pa have "processAITurns ar fl rnds us1 g1 = Inr (us', g')"
      by (auto simp: performAction_def split: if_splits sum.splits)
    then have "keeps_dropped g1 g'"
      unfolding processAITurns_def by (rule processAITurns_loop_keeps)
    with k1 show ?thesis by (rule keeps_dropped_trans)
  next
    case nb: False
    with assms False fi v pa have "g' = g1"
      by (auto simp: performAction_def split: if_splits)
    with k1 show ?thesis by simp
  qed
qed

text \<open>The example game holds the 40 cards of the deck, each once.\<close>

lemma table_game_created: "newGame exact_arith example_draws ''u1'' (Num 5) = table_game False"
  by code_simp

lemma example_cards:
  "length (all_cards (table_game True)) = 40
   \<and> distinct (map card_id (all_cards (table_game True)))
   \<and> list_all (\<lambda>c. c \<in> set orderedDeck) (all_cards (table_game True))"
  by code_simp

text \<open>A request to \<open>performAction\<close> leads from a reachable game to a reachable game.\<close>

lemma processAITurns_loop_reachable:
  "reachable ar g \<Longrightarrow> processAITurns_loop ar fl rnds n us g cpi = Inr (us', g')
     \<Longrightarrow> reachable ar g'"
proof (induction n arbitrary: us g cpi)
  case 0
  then show ?case by (auto split: if_splits)
next
  case (Suc n)
  note r = Suc.prems(1) and run = Suc.prems(2)
  show ?case
  proof (cases "status g \<noteq> Playing \<or> \<not> isAI (players g ! cpi)")
    case True
    with r run show ?thesis by (auto split: if_splits)
  next
    case False
    then have pl: "status g = Playing" "isAI (players g ! cpi)" by auto
    from run pl have cl: "cpi < length (players g)" by (auto split: if_splits)
    show ?thesis
    proof (cases "isDropped (players g ! cpi)")
      case True
      with run pl cl
      have "processAITurns_loop ar fl rnds n us g (getNextActivePlayer g cpi) = Inr (us', g')"
        by simp
      with r show ?thesis by (rule Suc.IH)
    next
      case nd: False
      let ?dif = "getAIPersonality (player_id (players g ! cpi))"
      let ?src = "decideDrawSource fl g (players g ! cpi) ?dif"
      from run pl cl nd obtain g1 where d: "handleDraw (rnds (Suc n)) g cpi (?src = ''discard'') = Inr g1"
        by (auto simp: Let_def split: sum.splits)
      have r1: "reachable ar g1" using r pl(1) d by (rule reachable.draw)
      have s1: "status g1 = Playing" using handleDraw_Inr [OF d] pl(1) by simp
      from run pl cl nd d obtain cardToDiscard where
        c: "decideCardToDiscard fl (hand (players g1 ! cpi)) g1 ?dif = Some cardToDiscard"
        by (auto simp: Let_def split: option.splits)
      from run pl cl nd d c obtain g2 where e: "handleDiscard g1 cpi cardToDiscard = Inr g2"
        by (auto simp: Let_def split: if_splits sum.splits)
      have r2: "reachable ar g2" using r1 s1 e by (rule reachable.discard)
      have s2: "status g2 = Playing" using handleDiscard_Inr [OF e] s1 by simp
      from run pl cl nd d c e have rest:
        "(if canDrop (players g2 ! cpi) \<and> shouldDrop fl (players g2 ! cpi) g2 ?dif
            then handleDrop ar us g2 cpi
          else if length (filter (\<lambda>p. \<not> isAI p \<and> \<not> isDropped p) (players g2)) = 0
            then (case findIndex (\<lambda>p. isAI p \<and> \<not> isDropped p) (players g2) of
                    Some aiIndex \<Rightarrow> handleDrop ar us g2 aiIndex
                  | None \<Rightarrow> Inr (us, g2))
          else processAITurns_loop ar fl rnds n us g2 (currentPlayerIndex g2)) = Inr (us', g')"
        by (auto simp: Let_def split: if_splits)
      show ?thesis
      proof (cases "canDrop (players g2 ! cpi) \<and> shouldDrop fl (players g2 ! cpi) g2 ?dif")
        case True
        with rest have "handleDrop ar us g2 cpi = Inr (us', g')" by simp
        with r2 s2 show ?thesis by (rule reachable.drop)
      next
        case nodrop: False
        show ?thesis
        proof (cases "length (filter (\<lambda>p. \<not> isAI p \<and> \<not> isDropped p) (players g2)) = 0")
          case True
          show ?thesis
          proof (cases "findIndex (\<lambda>p. isAI p \<and> \<not> isDropped p) (players g2)")
            case None
            with rest nodrop True r2 show ?thesis by simp
          next
            case (Some aiIndex)
            with rest nodrop True have "handleDrop ar us g2 aiIndex = Inr (us', g')" by simp
            with r2 s2 show ?thesis by (rule reachable.drop)
          qed
        next
          case False
          with rest nodrop have "processAITurns_loop ar fl rnds n us g2 (currentPlayerIndex g2) = Inr (us', g')"
            by simp
          with r2 show ?thesis by (rule Suc.IH)
        qed
      qed
    qed
  qed
qed

lemma process_action_reachable:
  assumes "reachable ar g" "status g = Playing"
    and "process_action ar rnd us g i action d = Some (Inr (us1, g1))"
  shows "reachable ar g1"
proof -
  consider (draw) "action = ''draw''" | (discard) "action \<noteq> ''draw''" "action = ''discard''"
    | (drop) "action \<noteq> ''draw''" "action \<noteq> ''discard''" "action = ''drop''"
    | (other) "action \<noteq> ''draw''" "action \<noteq> ''discard''" "action \<noteq> ''drop''"
    by blast
  then show ?thesis
  proof cases
    case draw
    with assms(3) have "handleDraw rnd g i (source d = Some ''discard'') = Inr g1"
      by (cases "handleDraw rnd g i (source d = Some ''discard'')") (auto simp: process_action_def)
    with assms(1,2) show ?thesis by (rule reachable.draw)
  next
    case discard
    with assms(3) obtain c where "handleDiscard g i c = Inr g1"
      by (cases "cardId d"; cases "handleDiscard g i (the (cardId d))")
         (auto simp: process_action_def split: if_splits)
    with assms(1,2) show ?thesis by (rule reachable.discard)
  next
    case drop
    with assms(3) have "handleDrop ar us g i = Inr (us1, g1)"
      by (simp add: process_action_def)
    with assms(1,2) show ?thesis by (rule reachable.drop)
  next
    case other
    with assms(3) show ?thesis
      by (auto simp: process_action_def handleSpread_def split: if_splits)
  qed
qed

lemma performAction_reachable:
  assumes "reachable ar g"
  shows "reachable ar (snd (snd (performAction ar fl rnd rnds us g userId action d)))"
proof -
  obtain r us' g' where p: "performAction ar fl rnd rnds us g userId action d = (r, us', g')"
    by (metis prod_cases3)
  have "reachable ar g'"
  proof (cases "g' = g")
    case True
    with assms show ?thesis by simp
  next
    case False
    with p have s: "status g = Playing" by (auto simp: performAction_def split: if_splits)
    from p False obtain i where fi: "findIndex (\<lambda>p. player_id p = userId) (players g) = Some i"
      by (auto simp: performAction_def split: if_splits option.splits)
    from p False fi have v: "isValidMove g userId action d = Valid"
      by (auto simp: performAction_def split: if_splits validation.splits)
    from p False fi v obtain us1 g1 where
      pa: "process_action ar rnd us g i action d = Some (Inr (us1, g1))"
      by (auto simp: performAction_def split: if_splits option.splits sum.splits)
    have r1: "reachable ar g1" using assms s pa by (rule process_action_reachable)
    show ?thesis
    proof (cases "status g1 = Playing")
      case True
      with p False fi v pa have "processAITurns ar fl rnds us1 g1 = Inr (us', g')"
        by (auto simp: performAction_def split: if_splits sum.splits)
      with r1 show ?thesis
        unfolding processAITurns_def by (rule processAITurns_loop_reachable)
    next
      case nb: False
      with p False fi v pa have "g' = g1"
        by (auto simp: performAction_def split: if_splits)
      with r1 show ?thesis by simp
    qed
  qed
  with p show ?thesis by simp
qed

lemma request_reachable:
  "reachable exact_arith (snd s) \<Longrightarrow> reachable exact_arith (snd (request s action d))"
  by (simp add: request_def performAction_reachable)

lemma payout_start_facts:
  "snd (createGame exact_arith payout_draws one_user ''u1'' (Num 5)) = Inr (snd payout_start)
   \<and> map_option balance (fst payout_start ''u1'') = Some (Num 95)"
  by code_simp

lemma payout_game_facts:
  "case payout_game of
     (us, g) \<Rightarrow>
       pot g = Num 20 \<and> stake g = Num 5 \<and> status g = Playing
       \<and> map isDropped (players g) = [False, False, True, True]
       \<and> player_id (players g ! 0) = ''u1''
       \<and> calculateHandScore (hand (players g ! 0)) = 8
       \<and> \<not> isFirstTurnFor g 0
       \<and> isValidMove g ''u1'' ''drop'' drop_request = Valid
       \<and> us ''u1'' = Some \<lparr>balance = Num 95, gamesWon = Num 0, totalWinnings = Num 0,
                             gamesPlayed = Num 0, totalWagered = Num 0\<rparr>
       \<and> (case handleDrop exact_arith us g 0 of
             Inl e \<Rightarrow> False
           | Inr (us', g') \<Rightarrow> status g' = Ended)"
  by code_simp

text \<open>The draw flag: set by a draw, cleared by a discard, for the acting player only.\<close>

lemma handleDraw_hasDrawn:
  assumes "handleDraw rnd g i fromDiscard = Inr g'"
  shows "hasDrawn (players g' ! i)"
    and "j < length (players g) \<Longrightarrow> j \<noteq> i \<Longrightarrow> hasDrawn (players g' ! j) = hasDrawn (players g ! j)"
proof -
  from handleDraw_Inr [OF assms] have i: "i < length (players g)" by simp
  have fd: "\<And>h. i < length (players h) \<Longrightarrow> hasDrawn (players (finish_draw i h) ! i)"
    by (simp add: finish_draw_def)
  show "hasDrawn (players g' ! i)"
  proof (cases fromDiscard)
    case True
    with assms i obtain h where "g' = finish_draw i h" "length (players h) = length (players g)"
      by (auto simp: handleDraw_def split: list.splits if_splits)
    with i fd show ?thesis by simp
  next
    case False
    with assms i obtain h where "g' = finish_draw i h" "length (players h) = length (players g)"
      by (auto simp: handleDraw_def Let_def split: if_splits)
    with i fd show ?thesis by simp
  qed
  assume j: "j < length (players g)" "j \<noteq> i"
  show "hasDrawn (players g' ! j) = hasDrawn (players g ! j)"
  proof (cases fromDiscard)
    case True
    with assms i j show ?thesis
      by (auto simp: handleDraw_def finish_draw_def split: list.splits if_splits)
  next
    case False
    with assms i j show ?thesis
      by (auto simp: handleDraw_def Let_def finish_draw_def applyHitPenalties_def hit_step_player
          split: if_splits)
  qed
qed

lemma decrement_penalty_hasDrawn: "hasDrawn (decrement_penalty p) = hasDrawn p"
  by (simp add: decrement_penalty_def Let_def)

lemma handleDiscard_hasDrawn:
  assumes "handleDiscard g i cid = Inr g'"
  shows "\<not> hasDrawn (players g' ! i)"
    and "j < length (players g) \<Longrightarrow> j \<noteq> i \<Longrightarrow> hasDrawn (players g' ! j) = hasDrawn (players g ! j)"
proof -
  from assms have i: "i < length (players g)"
    by (auto simp: handleDiscard_def split: if_splits)
  with assms show "\<not> hasDrawn (players g' ! i)"
    by (auto simp: handleDiscard_def Let_def decrement_penalty_hasDrawn split: option.splits)
  assume "j < length (players g)" "j \<noteq> i"
  with assms i show "hasDrawn (players g' ! j) = hasDrawn (players g ! j)"
    by (auto simp: handleDiscard_def Let_def decrement_penalty_hasDrawn split: option.splits)
qed


section \<open>Drop eligibility\<close>

text \<open>
  Claim C1.  \<open>canPlayerDrop player isFirstTurn\<close> is true exactly when the player has no
  pending penalties and the hand score is at most 11, or \<open>isFirstTurn\<close> holds and the score
  is at most 41, or the score is at most 50.  In particular it is false whenever
  \<open>penalties > 0\<close> and whenever the score exceeds 50.
\<close>

theorem canPlayerDrop_iff:
  "(canPlayerDrop p isFirstTurn \<longleftrightarrow>
      \<not> penalties p > 0 \<and>
      (calculateHandScore (hand p) \<le> 11
       \<or> (isFirstTurn \<and> calculateHandScore (hand p) \<le> 41)
       \<or> calculateHandScore (hand p) \<le> 50))
   \<and> (penalties p > 0 \<longrightarrow> \<not> canPlayerDrop p isFirstTurn)
   \<and> (calculateHandScore (hand p) > 50 \<longrightarrow> \<not> canPlayerDrop p isFirstTurn)"
  by (auto simp: canPlayerDrop_def Let_def)

theorem canPlayerDrop_iff_witness:
  "penalties ((new_player ''u1'' False hand12)\<lparr>penalties := 2\<rparr>) > 0
   \<and> \<not> canPlayerDrop ((new_player ''u1'' False hand12)\<lparr>penalties := 2\<rparr>) True
   \<and> calculateHandScore (hand (new_player ''u2'' False faces60)) > 50
   \<and> \<not> canPlayerDrop (new_player ''u2'' False faces60) True
   \<and> canPlayerDrop (new_player ''u3'' False hand8) False"
  using canPlayerDrop_iff [of "(new_player ''u1'' False hand12)\<lparr>penalties := 2\<rparr>" True]
    canPlayerDrop_iff [of "new_player ''u2'' False faces60" True]
    canPlayerDrop_iff [of "new_player ''u3'' False hand8" False]
  by (simp add: new_player_def mk_card_def calculateHandScore_def hand12_def hand8_def faces60_def)

text \<open>
  Claim C7, as the spec states it: a hand scoring exactly 12, held by a player with no
  penalties, is not droppable when \<open>isFirstTurn\<close> is false.  The code accepts it: the
  last test of \<open>canPlayerDrop\<close> is \<open>score \<le> 50\<close>.
\<close>

theorem score12_counterexample:
  "penalties (new_player ''u1'' False hand12) = 0
   \<and> calculateHandScore (hand (new_player ''u1'' False hand12)) = 12
   \<and> canPlayerDrop (new_player ''u1'' False hand12) False"
  by (simp add: new_player_def hand12_def mk_card_def calculateHandScore_def canPlayerDrop_def)

text \<open>
  Claim C7, amended: a hand scoring exactly 12, held by a player with no penalties, is
  droppable on every turn, first or not.
\<close>

theorem score12_droppable:
  "penalties p \<le> 0 \<Longrightarrow> calculateHandScore (hand p) = 12 \<Longrightarrow> canPlayerDrop p isFirstTurn"
  by (simp add: canPlayerDrop_def)

theorem score12_droppable_witness:
  "penalties (new_player ''u1'' False hand12) \<le> 0
   \<and> calculateHandScore (hand (new_player ''u1'' False hand12)) = 12
   \<and> canPlayerDrop (new_player ''u1'' False hand12) False
   \<and> canPlayerDrop (new_player ''u1'' False hand12) True"
proof -
  have p: "penalties (new_player ''u1'' False hand12) \<le> 0"
    by (simp add: new_player_def)
  have s: "calculateHandScore (hand (new_player ''u1'' False hand12)) = 12"
    by (simp add: new_player_def hand12_def mk_card_def calculateHandScore_def)
  show ?thesis using p s score12_droppable [OF p s, of False] score12_droppable [OF p s, of True]
    by simp
qed

section \<open>Hit penalties\<close>

text \<open>
  Claim C3 asks that a draw from the deck penalises every other player one of whose
  spreads the drawn card hits.  \<open>applyHitPenalties\<close> passes the player it is about to
  penalise as the target of \<open>wouldHitSpread\<close>, which skips the target's own spreads.
  \<open>table_game False\<close> is the game that \<open>createGame\<close> deals for the random outcomes
  \<open>example_draws\<close>.  Seat 0 draws the seven of spades from the deck; seen from the
  drawer it hits the set of sevens of seat 2 (\<open>ai-2\<close>), and no other seat holds a spread.
  The code leaves seat 2 without a penalty and penalises seats 1 and 3.
\<close>

theorem hit_penalty_misses_the_owner:
  "newGame exact_arith example_draws ''u1'' (Num 5) = table_game False
   \<and> map (\<lambda>p. map (\<lambda>sp. (spread_type sp, map card_id (cards sp))) (findExistingSpreads (hand p)))
       (players (table_game False))
     = [[], [], [(SetSpread, [''card-6'', ''card-16'', ''card-26''])], []]
   \<and> map card_id (deck (table_game False)) ! 18 = ''card-36''
   \<and> map_option fst (wouldHitSpread (mk_card ''card-36'' Spades R7 7) (players (table_game False) ! 0)
                        (players (table_game False))) = Some ''ai-2''
   \<and> map_sum id (\<lambda>g. map (\<lambda>p. (player_id p, penalties p, hitCount p)) (players g))
        (handleDraw (\<lambda>k. 0) (table_game False) 0 False)
     = Inr [(''u1'', 0, 0), (''ai-1'', 2, 1), (''ai-2'', 0, 0), (''ai-3'', 2, 1)]"
  by code_simp

section \<open>Turn order and validation\<close>

lemma canPlayerDrop_hasDrawn: "canPlayerDrop (p\<lparr>hasDrawn := b\<rparr>) ft = canPlayerDrop p ft"
  by (simp add: canPlayerDrop_def)

lemma validateDraw_hasDrawn:
  "validateDraw (set_hasDrawn f g) (p\<lparr>hasDrawn := b\<rparr>) d = validateDraw g p d"
  by (simp add: validateDraw_def set_hasDrawn_def)

lemma validateDiscard_hasDrawn:
  "validateDiscard (set_hasDrawn f g) (p\<lparr>hasDrawn := b\<rparr>) d = validateDiscard g p d"
  by (simp add: validateDiscard_def split: option.splits)

lemma validateDrop_hasDrawn:
  "validateDrop (set_hasDrawn f g) (p\<lparr>hasDrawn := b\<rparr>) d = validateDrop g p d"
  by (simp add: validateDrop_def set_hasDrawn_def list_all_iff canPlayerDrop_hasDrawn)

lemma validateSpread_hasDrawn:
  "validateSpread (set_hasDrawn f g) (p\<lparr>hasDrawn := b\<rparr>) d = validateSpread g p d"
  by (simp add: validateSpread_def split: option.splits)

text \<open>
  Claim C5, as the spec states it: validation never accepts a discard or a drop from the
  current player before that player has drawn, and never accepts a second draw in the
  same turn.  In the freshly dealt \<open>table_game False\<close> seat 0 has not drawn, and its
  discard and its drop are accepted; after its draw the flag is set, it is still its
  turn, and a second draw is accepted.
\<close>

theorem turn_order_counterexample:
  "\<not> hasDrawn (players (table_game False) ! 0)
   \<and> currentPlayerIndex (table_game False) = 0
   \<and> isValidMove (table_game False) ''u1'' ''discard'' (discard_request ''card-0'') = Valid
   \<and> isValidMove (table_game False) ''u1'' ''drop'' drop_request = Valid
   \<and> (case handleDraw (\<lambda>k. 0) (table_game False) 0 False of
         Inl e \<Rightarrow> False
       | Inr g1 \<Rightarrow> hasDrawn (players g1 ! 0) \<and> currentPlayerIndex g1 = 0
           \<and> isValidMove g1 ''u1'' ''draw'' draw_request = Valid)"
  by code_simp

text \<open>
  Claim C5, amended: \<open>handleDraw\<close> sets and \<open>handleDiscard\<close> clears the flag
  \<open>hasDrawn\<close> of the acting player, and leave the flags of the other players as they
  are, but action validation does not read the flag: the verdict of \<open>isValidMove\<close> is
  the same whatever the players' \<open>hasDrawn\<close> flags are.
\<close>

theorem validation_ignores_hasDrawn:
  "isValidMove (set_hasDrawn f g) pid action d = isValidMove g pid action d
   \<and> (handleDraw rnd g i fromDiscard = Inr g1 \<longrightarrow>
        hasDrawn (players g1 ! i)
        \<and> (\<forall>j < length (players g). j \<noteq> i \<longrightarrow> hasDrawn (players g1 ! j) = hasDrawn (players g ! j)))
   \<and> (handleDiscard g i cid = Inr g2 \<longrightarrow>
        \<not> hasDrawn (players g2 ! i)
        \<and> (\<forall>j < length (players g). j \<noteq> i \<longrightarrow> hasDrawn (players g2 ! j) = hasDrawn (players g ! j)))"
proof (intro conjI impI allI)
  show "isValidMove (set_hasDrawn f g) pid action d = isValidMove g pid action d"
  proof (cases "findIndex (\<lambda>p. player_id p = pid) (players g)")
    case None
    then show ?thesis by (simp add: isValidMove_def set_hasDrawn_def findIndex_map)
  next
    case (Some i)
    then have i: "i < length (players g)" by (rule findIndex_less)
    have fi: "findIndex (\<lambda>p. player_id p = pid) (players (set_hasDrawn f g)) = Some i"
      using Some by (simp add: set_hasDrawn_def findIndex_map)
    have nth: "players (set_hasDrawn f g) ! i = (players g ! i)\<lparr>hasDrawn := f (players g ! i)\<rparr>"
      using i by (simp add: set_hasDrawn_def)
    have cur: "currentPlayerIndex (set_hasDrawn f g) = currentPlayerIndex g"
      by (simp add: set_hasDrawn_def)
    show ?thesis
      by (simp add: isValidMove_def fi Some nth cur Let_def validateDraw_hasDrawn
          validateDiscard_hasDrawn validateDrop_hasDrawn validateSpread_hasDrawn)
  qed
next
  assume "handleDraw rnd g i fromDiscard = Inr g1"
  then show "hasDrawn (players g1 ! i)" by (rule handleDraw_hasDrawn(1))
next
  fix j
  assume "handleDraw rnd g i fromDiscard = Inr g1" "j < length (players g)" "j \<noteq> i"
  then show "hasDrawn (players g1 ! j) = hasDrawn (players g ! j)" by (rule handleDraw_hasDrawn(2))
next
  assume "handleDiscard g i cid = Inr g2"
  then show "\<not> hasDrawn (players g2 ! i)" by (rule handleDiscard_hasDrawn(1))
next
  fix j
  assume "handleDiscard g i cid = Inr g2" "j < length (players g)" "j \<noteq> i"
  then show "hasDrawn (players g2 ! j) = hasDrawn (players g ! j)" by (rule handleDiscard_hasDrawn(2))
qed

theorem validation_ignores_hasDrawn_witness:
  "isValidMove (set_hasDrawn (\<lambda>p. True) (table_game False)) ''u1'' ''discard'' (discard_request ''card-0'')
     = isValidMove (table_game False) ''u1'' ''discard'' (discard_request ''card-0'')
   \<and> \<not> hasDrawn (players (table_game False) ! 0)
   \<and> (case handleDraw (\<lambda>k. 0) (table_game False) 0 False of
         Inl e \<Rightarrow> False
       | Inr g1 \<Rightarrow> hasDrawn (players g1 ! 0) \<and> \<not> hasDrawn (players g1 ! 1)
           \<and> (case handleDiscard g1 0 ''card-36'' of
                 Inl e \<Rightarrow> False
               | Inr g2 \<Rightarrow> \<not> hasDrawn (players g2 ! 0) \<and> \<not> hasDrawn (players g2 ! 1)))"
proof -
  have n: "\<not> hasDrawn (players (table_game False) ! 0)" "\<not> hasDrawn (players (table_game False) ! 1)"
    "1 < length (players (table_game False))"
    by (simp_all add: table_game_def new_player_def)
  have "\<not> isl (handleDraw (\<lambda>k. 0) (table_game False) 0 False)" by code_simp
  then obtain g1 where d: "handleDraw (\<lambda>k. 0) (table_game False) 0 False = Inr g1"
    by (cases "handleDraw (\<lambda>k. 0) (table_game False) 0 False") auto
  have "case handleDraw (\<lambda>k. 0) (table_game False) 0 False of
          Inl e \<Rightarrow> False | Inr g1 \<Rightarrow> \<not> isl (handleDiscard g1 0 ''card-36'')"
    by code_simp
  with d obtain g2 where c: "handleDiscard g1 0 ''card-36'' = Inr g2"
    by (cases "handleDiscard g1 0 ''card-36''") auto
  have l: "1 < length (players g1)" using handleDraw_Inr [OF d] n(3) by simp
  note t1 = validation_ignores_hasDrawn
      [of "\<lambda>p. True" "table_game False" "''u1''" "''discard''" "discard_request ''card-0''"
          "\<lambda>k. 0" 0 False g1 "''card-36''" g2]
  note t2 = validation_ignores_hasDrawn
      [of "\<lambda>p. True" g1 "''u1''" "''discard''" "discard_request ''card-0''"
          "\<lambda>k. 0" 0 False g1 "''card-36''" g2]
  show ?thesis using t1 t2 d c n l by simp
qed

text \<open>
  Claim C8.  When \<open>isValidMove\<close> rejects a request, \<open>performAction\<close> leaves the user
  store and the stored game as they were; for a game in progress and a requester who
  is one of its players (the two checks made before validation) the response is status
  400 with the validation error.  \<open>isValidMove\<close> is a function of the game, the player
  id, the action and the payload: it returns a verdict and has no state to change.
\<close>

theorem rejected_move_changes_nothing:
  "isValidMove g userId action d = Invalid e \<Longrightarrow>
   snd (performAction ar fl rnd rnds us g userId action d) = (us, g)
   \<and> (status g = Playing \<and> findIndex (\<lambda>p. player_id p = userId) (players g) \<noteq> None \<longrightarrow>
        performAction ar fl rnd rnds us g userId action d = (Failure 400 (ValidationFailed e), us, g))"
  by (auto simp: performAction_def split: option.splits)

theorem rejected_move_changes_nothing_witness:
  "isValidMove (table_game False) ''ai-2'' ''draw''
      \<lparr>cardId = None, cardIds = None, source = Some ''deck''\<rparr> = Invalid NotYourTurn
   \<and> status (table_game False) = Playing
   \<and> findIndex (\<lambda>p. player_id p = ''ai-2'') (players (table_game False)) \<noteq> None
   \<and> performAction exact_arith exact_ops (\<lambda>k. 0) (\<lambda>t k. 0) Map.empty (table_game False) ''ai-2'' ''draw''
        \<lparr>cardId = None, cardIds = None, source = Some ''deck''\<rparr>
      = (Failure 400 (ValidationFailed NotYourTurn), Map.empty, table_game False)"
proof -
  have v: "isValidMove (table_game False) ''ai-2'' ''draw''
      \<lparr>cardId = None, cardIds = None, source = Some ''deck''\<rparr> = Invalid NotYourTurn"
    by code_simp
  have s: "status (table_game False) = Playing"
    by (simp add: table_game_def)
  have f: "findIndex (\<lambda>p. player_id p = ''ai-2'') (players (table_game False)) \<noteq> None"
    by (simp add: table_game_def new_player_def)
  show ?thesis
    using v s f rejected_move_changes_nothing [OF v, of exact_arith exact_ops "\<lambda>k. 0" "\<lambda>t k. 0" Map.empty]
    by simp
qed

section \<open>The view sent to a player\<close>

text \<open>
  Claim C9, as the spec states it: the view for a player masks every card of every other
  player.  In \<open>table_game True\<close> seat 1 (\<open>ai-1\<close>) has dropped; the view for \<open>u1\<close> shows
  its five cards as they are.
\<close>

theorem sanitize_counterexample:
  "player_id (players (table_game True) ! 1) \<noteq> ''u1''
   \<and> hand (players (sanitizeGameForPlayer (table_game True) ''u1'') ! 1)
       = [mk_card ''card-2'' Hearts R3 3, mk_card ''card-23'' Clubs R4 4,
          mk_card ''card-35'' Spades R6 6, mk_card ''card-18'' Diamonds RQ 10,
          mk_card ''card-9'' Hearts RK 10]"
  by (simp add: table_game_def sanitizeGameForPlayer_def new_player_def seat1_hand_def)

text \<open>
  Claim C9, amended: the view for a player replaces every card in the hand of every
  other player who has not dropped by a card with the same id, suit \<open>'?'\<close>, rank
  \<open>'?'\<close>, value 0 and \<open>isHidden\<close> true, changing nothing else of that player; the viewer
  and the players who have dropped are passed on unmodified.
\<close>

theorem sanitize_view:
  "i < length (players g) \<Longrightarrow>
   (player_id (players g ! i) \<noteq> viewer \<and> \<not> isDropped (players g ! i) \<longrightarrow>
      players (sanitizeGameForPlayer g viewer) ! i =
        (players g ! i)\<lparr>hand := map (\<lambda>c. \<lparr>card_id = card_id c, suit = HiddenSuit, rank = HiddenRank,
                                           card_value = 0, isHidden = True\<rparr>) (hand (players g ! i))\<rparr>)
   \<and> (player_id (players g ! i) = viewer \<or> isDropped (players g ! i) \<longrightarrow>
      players (sanitizeGameForPlayer g viewer) ! i = players g ! i)"
  by (simp add: sanitizeGameForPlayer_def)

theorem sanitize_view_witness:
  "2 < length (players (table_game True))
   \<and> player_id (players (table_game True) ! 2) \<noteq> ''u1''
   \<and> \<not> isDropped (players (table_game True) ! 2)
   \<and> map (\<lambda>c. (card_id c, suit c, rank c, card_value c, isHidden c))
         (hand (players (sanitizeGameForPlayer (table_game True) ''u1'') ! 2))
       = [(''card-6'', HiddenSuit, HiddenRank, 0, True), (''card-16'', HiddenSuit, HiddenRank, 0, True),
          (''card-26'', HiddenSuit, HiddenRank, 0, True), (''card-39'', HiddenSuit, HiddenRank, 0, True),
          (''card-20'', HiddenSuit, HiddenRank, 0, True)]
   \<and> player_id (players (table_game True) ! 0) = ''u1''
   \<and> players (sanitizeGameForPlayer (table_game True) ''u1'') ! 0 = players (table_game True) ! 0"
proof -
  have l: "2 < length (players (table_game True))" "0 < length (players (table_game True))"
    by (simp_all add: table_game_def)
  show ?thesis
    using l sanitize_view [OF l(1), of "''u1''"] sanitize_view [OF l(2), of "''u1''"]
    by (simp add: table_game_def new_player_def mk_card_def seat2_hand_def)
qed

section \<open>Payout\<close>

text \<open>
  Claim C4.  \<open>calculateWinningMultiplier score isFirstTurn\<close> is 3 if the score is at
  most 11, 3 if \<open>isFirstTurn\<close> holds and the score is 41, 2 if the score is 50, and 1
  otherwise.  In the arithmetic \<open>ar\<close> of the machine, whatever its rounding: the pot of
  every reachable game is the product of its stake and 4, and when a drop ends the game
  the dropper is the winner, the multiplier is that of the hand score at the drop, and
  the winner, if human and known to the user store, has the sum of the balance and the
  product of pot and multiplier as the new balance.  If the arithmetic is exact on
  integers up to \<open>2 ^ 53\<close>, as that of doubles is, and the stake is an integer with
  twelve times the stake within that bound, the amount added is the integer
  \<open>stake * 4 * multiplier\<close>, 60 for stake 5 and a drop at score 8; if moreover the
  balance is an integer and the balance plus twelve times the stake is within the
  bound, the new balance is the integer \<open>balance + stake * 4 * multiplier\<close>, 155 for a
  balance of 95.
\<close>

theorem drop_payout:
  "calculateWinningMultiplier s ft =
     (if s \<le> 11 then 3 else if ft \<and> s = 41 then 3 else if s = 50 then 2 else 1)
   \<and> (reachable ar g \<longrightarrow> pot g = num_mul ar (stake g) (Num 4))
   \<and> (pot g = num_mul ar (stake g) (Num 4) \<and> status g = Playing
        \<and> handleDrop ar us g i = Inr (us', g')
        \<and> status g' = Ended \<and> \<not> startsWith (player_id (players g ! i)) ''ai-''
        \<and> us (player_id (players g ! i)) = Some u
      \<longrightarrow> winner g' = Some (player_id (players g ! i))
          \<and> winningMultiplier g'
               = calculateWinningMultiplier (calculateHandScore (hand (players g ! i))) (isFirstTurnFor g i)
          \<and> map_option balance (us' (player_id (players g ! i)))
               = Some (num_add ar (balance u)
                        (num_mul ar (num_mul ar (stake g) (Num 4))
                           (Num (of_int (calculateWinningMultiplier
                                           (calculateHandScore (hand (players g ! i)))
                                           (isFirstTurnFor g i))))))
          \<and> (exact_on_integers ar \<and> stake g = Num (of_int st) \<and> \<bar>st\<bar> * 12 \<le> 2 ^ 53
              \<longrightarrow> map_option balance (us' (player_id (players g ! i)))
                    = Some (num_add ar (balance u) (Num (of_int (st * 4
                         * calculateWinningMultiplier (calculateHandScore (hand (players g ! i)))
                             (isFirstTurnFor g i))))))
          \<and> (exact_on_integers ar \<and> stake g = Num (of_int st) \<and> balance u = Num (of_int b)
                \<and> \<bar>st\<bar> * 12 \<le> 2 ^ 53 \<and> \<bar>b\<bar> + \<bar>st\<bar> * 12 \<le> 2 ^ 53
              \<longrightarrow> map_option balance (us' (player_id (players g ! i)))
                    = Some (Num (of_int (b + st * 4
                         * calculateWinningMultiplier (calculateHandScore (hand (players g ! i)))
                             (isFirstTurnFor g i))))))"
proof (intro conjI impI)
  show "calculateWinningMultiplier s ft =
     (if s \<le> 11 then 3 else if ft \<and> s = 41 then 3 else if s = 50 then 2 else 1)"
    by (simp add: calculateWinningMultiplier_def)
next
  assume "reachable ar g"
  then show "pot g = num_mul ar (stake g) (Num 4)" by (rule reachable_pot)
next
  let ?m = "calculateWinningMultiplier (calculateHandScore (hand (players g ! i))) (isFirstTurnFor g i)"
  let ?w = "player_id (players g ! i)"
  assume a: "pot g = num_mul ar (stake g) (Num 4) \<and> status g = Playing
        \<and> handleDrop ar us g i = Inr (us', g')
        \<and> status g' = Ended \<and> \<not> startsWith ?w ''ai-'' \<and> us ?w = Some u"
  then have i: "i < length (players g)" using handleDrop_Inr [of ar us g i us' g'] by simp
  from a i have e: "endGame ar us (dropped_game g i) ?w ?m = (us', g')"
    by (auto simp: handleDrop_eq split: if_splits)
  have g': "g' = (dropped_game g i)\<lparr>status := Ended, winner := Some ?w, winningMultiplier := ?m\<rparr>"
    using endGame_game [of ar us "dropped_game g i" ?w ?m] e by simp
  have b: "map_option balance (us' ?w)
             = map_option (\<lambda>u. num_add ar (balance u) (num_mul ar (pot g) (Num (of_int ?m)))) (us ?w)"
    using endGame_balance [of ar us "dropped_game g i" ?w ?m ?w] e a by simp
  show "winner g' = Some ?w" by (simp add: g')
  show "winningMultiplier g' = ?m" by (simp add: g')
  show eq: "map_option balance (us' ?w)
          = Some (num_add ar (balance u) (num_mul ar (num_mul ar (stake g) (Num 4)) (Num (of_int ?m))))"
    using b a by simp
  have m: "1 \<le> ?m" "?m \<le> 3" by (simp_all add: calculateWinningMultiplier_def)
  have four: "(4 :: rat) = of_int 4" by simp
  have b2: "\<bar>4 :: int\<bar> \<le> 2 ^ 53" "\<bar>?m\<bar> \<le> 2 ^ 53" using m by simp_all
  have "\<bar>st * 4 * ?m\<bar> = \<bar>st\<bar> * 4 * ?m" using m by (simp add: abs_mult)
  also have "\<dots> \<le> \<bar>st\<bar> * 4 * 3" using m by (intro mult_left_mono) simp_all
  finally have s12: "\<bar>st * 4 * ?m\<bar> \<le> \<bar>st\<bar> * 12" by simp
  have win: "num_mul ar (num_mul ar (stake g) (Num 4)) (Num (of_int ?m)) = Num (of_int (st * 4 * ?m))"
    if e: "exact_on_integers ar" and st: "stake g = Num (of_int st)" and x1: "\<bar>st\<bar> * 12 \<le> 2 ^ 53"
  proof -
    have s4: "\<bar>st * 4\<bar> \<le> 2 ^ 53" using x1 by (simp add: abs_mult)
    have b1: "\<bar>st\<bar> \<le> 2 ^ 53" using x1 by linarith
    have s: "\<bar>st * 4 * ?m\<bar> \<le> 2 ^ 53" using s12 x1 by linarith
    have p1: "num_mul ar (Num (of_int st)) (Num 4) = Num (of_int (st * 4))"
      using e b1 b2(1) s4 unfolding exact_on_integers_def four by blast
    have p2: "num_mul ar (Num (of_int (st * 4))) (Num (of_int ?m)) = Num (of_int (st * 4 * ?m))"
      using e s4 b2(2) s unfolding exact_on_integers_def by blast
    show ?thesis using st p1 p2 by simp
  qed
  {
    assume x: "exact_on_integers ar \<and> stake g = Num (of_int st) \<and> \<bar>st\<bar> * 12 \<le> 2 ^ 53"
    then have "num_mul ar (num_mul ar (stake g) (Num 4)) (Num (of_int ?m)) = Num (of_int (st * 4 * ?m))"
      by (intro win) blast+
    then show "map_option balance (us' ?w) = Some (num_add ar (balance u) (Num (of_int (st * 4 * ?m))))"
      using eq by simp
  }
  assume x: "exact_on_integers ar \<and> stake g = Num (of_int st) \<and> balance u = Num (of_int b)
                \<and> \<bar>st\<bar> * 12 \<le> 2 ^ 53 \<and> \<bar>b\<bar> + \<bar>st\<bar> * 12 \<le> 2 ^ 53"
  then have x1: "\<bar>st\<bar> * 12 \<le> 2 ^ 53" "\<bar>b\<bar> + \<bar>st\<bar> * 12 \<le> 2 ^ 53" by blast+
  have e: "exact_on_integers ar" using x by blast
  have w: "num_mul ar (num_mul ar (stake g) (Num 4)) (Num (of_int ?m)) = Num (of_int (st * 4 * ?m))"
    using x by (intro win) blast+
  have b1: "\<bar>b\<bar> \<le> 2 ^ 53" using x1 by linarith
  have s: "\<bar>st * 4 * ?m\<bar> \<le> 2 ^ 53" using s12 x1(1) by linarith
  have "\<bar>b + st * 4 * ?m\<bar> \<le> \<bar>b\<bar> + \<bar>st * 4 * ?m\<bar>" by (rule abs_triangle_ineq)
  then have t: "\<bar>b + st * 4 * ?m\<bar> \<le> 2 ^ 53" using s12 x1(2) by linarith
  have p3: "num_add ar (Num (of_int b)) (Num (of_int (st * 4 * ?m))) = Num (of_int (b + st * 4 * ?m))"
    using e b1 s t unfolding exact_on_integers_def by blast
  show "map_option balance (us' ?w) = Some (Num (of_int (b + st * 4 * ?m)))"
    using eq x w p3 by simp
qed

theorem drop_payout_witness:
  "snd (createGame exact_arith payout_draws one_user ''u1'' (Num 5)) = Inr (snd payout_start)
   \<and> map_option balance (fst payout_start ''u1'') = Some (Num 95)
   \<and> reachable exact_arith (snd payout_game)
   \<and> stake (snd payout_game) = Num 5 \<and> pot (snd payout_game) = Num 20
   \<and> status (snd payout_game) = Playing
   \<and> map isDropped (players (snd payout_game)) = [False, False, True, True]
   \<and> calculateHandScore (hand (players (snd payout_game) ! 0)) = 8
   \<and> \<not> isFirstTurnFor (snd payout_game) 0
   \<and> isValidMove (snd payout_game) ''u1'' ''drop'' drop_request = Valid
   \<and> map_option balance (fst payout_game ''u1'') = Some (Num 95)
   \<and> exact_on_integers exact_arith
   \<and> (case handleDrop exact_arith (fst payout_game) (snd payout_game) 0 of
         Inl e \<Rightarrow> False
       | Inr (us', g') \<Rightarrow> status g' = Ended \<and> winner g' = Some ''u1'' \<and> winningMultiplier g' = 3
           \<and> map_option balance (us' ''u1'') = Some (Num 155))"
proof -
  obtain us g where pg: "payout_game = (us, g)" by (cases payout_game)
  let ?u = "\<lparr>balance = Num 95, gamesWon = Num 0, totalWinnings = Num 0,
             gamesPlayed = Num 0, totalWagered = Num 0\<rparr>"
  from payout_game_facts have a:
    "pot g = Num 20 \<and> stake g = Num 5 \<and> status g = Playing
       \<and> map isDropped (players g) = [False, False, True, True]
       \<and> player_id (players g ! 0) = ''u1''
       \<and> calculateHandScore (hand (players g ! 0)) = 8
       \<and> \<not> isFirstTurnFor g 0
       \<and> isValidMove g ''u1'' ''drop'' drop_request = Valid
       \<and> us ''u1'' = Some ?u
       \<and> (case handleDrop exact_arith us g 0 of
             Inl e \<Rightarrow> False
           | Inr (us', g') \<Rightarrow> status g' = Ended)"
    by (simp add: pg)
  then have f:
    "pot g = Num 20" "stake g = Num 5" "status g = Playing"
    "map isDropped (players g) = [False, False, True, True]"
    "player_id (players g ! 0) = ''u1''"
    "calculateHandScore (hand (players g ! 0)) = 8"
    "\<not> isFirstTurnFor g 0"
    "isValidMove g ''u1'' ''drop'' drop_request = Valid"
    "us ''u1'' = Some ?u"
    by blast+
  from a obtain us' g' where h: "handleDrop exact_arith us g 0 = Inr (us', g')"
    and e: "status g' = Ended"
    by (cases "handleDrop exact_arith us g 0") auto
  have "reachable exact_arith (snd payout_start)"
    by (simp add: payout_start_def reachable.created)
  then have "reachable exact_arith (snd payout_game)"
    unfolding payout_game_def by (intro request_reachable)
  then have r: "reachable exact_arith g" by (simp add: pg)
  have x: "exact_on_integers exact_arith"
    by (simp add: exact_on_integers_def exact_arith_def)
  have p: "pot g = num_mul exact_arith (stake g) (Num 4)"
    using drop_payout [of 8 False exact_arith g] r by simp
  have n: "\<not> startsWith (player_id (players g ! 0)) ''ai-''"
    by (simp add: f startsWith_def)
  have "winner g' = Some ''u1'' \<and> winningMultiplier g' = 3
          \<and> map_option balance (us' ''u1'') = Some (Num 155)"
    using drop_payout [where ar = exact_arith and g = g and us = us and i = 0 and us' = us'
        and g' = g' and u = ?u and st = 5 and b = 95] p f h e n x
    by (simp add: calculateWinningMultiplier_def)
  with payout_start_facts f h e r x show ?thesis by (simp add: pg)
qed

section \<open>The discard choice of the AI\<close>

text \<open>
  Claim C10.  For every non-empty hand \<open>decideCardToDiscard\<close> returns the id of a card
  of that hand, whatever the floating-point priorities are; for a one-card hand it is
  the id of that card.  In the AI cascade the hand is that of the acting player after
  a successful draw: it is not empty, the chosen id is in it, and \<open>handleDiscard\<close> finds
  the card.
\<close>

theorem discard_choice_in_hand:
  "(h \<noteq> [] \<longrightarrow> (\<exists>c \<in> set h. decideCardToDiscard fl h g dif = Some (card_id c)))
   \<and> (length h = 1 \<longrightarrow> decideCardToDiscard fl h g dif = Some (card_id (hd h)))
   \<and> (handleDraw rnd g0 i fromDiscard = Inr g1 \<longrightarrow>
        (\<exists>c \<in> set (hand (players g1 ! i)).
           decideCardToDiscard fl (hand (players g1 ! i)) g1 dif = Some (card_id c)
           \<and> (\<exists>g2. handleDiscard g1 i (card_id c) = Inr g2)))"
proof (intro conjI impI)
  assume "h \<noteq> []"
  then show "\<exists>c \<in> set h. decideCardToDiscard fl h g dif = Some (card_id c)"
    by (rule decideCardToDiscard_member)
next
  assume "length h = 1"
  then show "decideCardToDiscard fl h g dif = Some (card_id (hd h))"
    by (simp add: decideCardToDiscard_def)
next
  assume d: "handleDraw rnd g0 i fromDiscard = Inr g1"
  from handleDraw_Inr [OF d] obtain c where i: "i < length (players g0)"
    and l: "length (players g1) = length (players g0)"
    and h1: "hand (players g1 ! i) = hand (players g0 ! i) @ [c]"
    by auto
  then have "hand (players g1 ! i) \<noteq> []" by simp
  from decideCardToDiscard_member [OF this, of fl g1 dif]
  obtain x where x: "x \<in> set (hand (players g1 ! i))"
    and dx: "decideCardToDiscard fl (hand (players g1 ! i)) g1 dif = Some (card_id x)"
    by blast
  have "\<exists>g2. handleDiscard g1 i (card_id x) = Inr g2"
    using handleDiscard_succeeds [of i g1 x] i l x by simp
  with x dx show "\<exists>c \<in> set (hand (players g1 ! i)).
           decideCardToDiscard fl (hand (players g1 ! i)) g1 dif = Some (card_id c)
           \<and> (\<exists>g2. handleDiscard g1 i (card_id c) = Inr g2)"
    by blast
qed

theorem discard_choice_in_hand_witness:
  "hand (players (table_game False) ! 2) \<noteq> []
   \<and> decideCardToDiscard exact_ops (hand (players (table_game False) ! 2)) (table_game False) Medium
       = Some ''card-39''
   \<and> ''card-39'' \<in> card_id ` set (hand (players (table_game False) ! 2))
   \<and> (case handleDraw (\<lambda>k. 0) (table_game False) 0 False of
         Inl e \<Rightarrow> False
       | Inr g1 \<Rightarrow>
           (\<exists>c \<in> set (hand (players g1 ! 0)).
              decideCardToDiscard exact_ops (hand (players g1 ! 0)) g1 Easy = Some (card_id c)
              \<and> (\<exists>g2. handleDiscard g1 0 (card_id c) = Inr g2)))"
proof -
  let ?h = "hand (players (table_game False) ! 2)"
  have n: "?h \<noteq> []"
    by (simp add: table_game_def new_player_def seat2_hand_def)
  have e: "decideCardToDiscard exact_ops ?h (table_game False) Medium = Some ''card-39''"
    by code_simp
  obtain g1 where d: "handleDraw (\<lambda>k. 0) (table_game False) 0 False = Inr g1"
    by (simp add: handleDraw_def deck_before_draw_def needsReshuffle_def table_game_def Let_def)
  note t = discard_choice_in_hand [of ?h exact_ops "table_game False" Medium "\<lambda>k. 0"
      "table_game False" 0 False g1]
  from t n e obtain c where "c \<in> set ?h" "''card-39'' = card_id c" by auto
  then have m: "''card-39'' \<in> card_id ` set ?h" by blast
  have "\<exists>c \<in> set (hand (players g1 ! 0)).
          decideCardToDiscard exact_ops (hand (players g1 ! 0)) g1 Easy = Some (card_id c)
          \<and> (\<exists>g2. handleDiscard g1 0 (card_id c) = Inr g2)"
    using discard_choice_in_hand [of ?h exact_ops g1 Easy "\<lambda>k. 0" "table_game False" 0 False g1] d
    by blast
  with n e m d show ?thesis by simp
qed

section \<open>Deck integrity\<close>

text \<open>
  Claim C2.  In every game reachable from a freshly created game by draws, discards,
  reshuffles (and drops), whatever the stake and the arithmetic of the pot, the hands, the deck and the discard pile hold 40 cards
  together, and no card id occurs twice among them: the cards of all zones are, as a
  multiset, the 40 cards of the deck that \<open>createDeck\<close> builds.
\<close>

theorem deck_integrity:
  "reachable ar g \<Longrightarrow>
   length (all_cards g) = 40 \<and> distinct (map card_id (all_cards g))
   \<and> mset (all_cards g) = mset orderedDeck"
proof -
  assume "reachable ar g"
  then have m: "mset (all_cards g) = mset orderedDeck" by (rule reachable_all_cards)
  then have "length (all_cards g) = length orderedDeck" by (rule mset_eq_length)
  moreover have "mset (map card_id (all_cards g)) = mset (map card_id orderedDeck)"
    using m by (metis mset_map)
  then have "distinct (map card_id (all_cards g))"
    using distinct_orderedDeck by (metis mset_eq_imp_distinct_iff)
  ultimately show ?thesis using m length_orderedDeck by simp
qed


theorem deck_integrity_witness:
  "reachable exact_arith (newGame exact_arith (\<lambda>k. 0) ''u1'' (Num 5))
   \<and> length (all_cards (newGame exact_arith (\<lambda>k. 0) ''u1'' (Num 5))) = 40
   \<and> distinct (map card_id (all_cards (newGame exact_arith (\<lambda>k. 0) ''u1'' (Num 5))))
   \<and> (case handleDraw (\<lambda>k. 0) (newGame exact_arith (\<lambda>k. 0) ''u1'' (Num 5)) 0 False of
         Inl e \<Rightarrow> False
       | Inr g1 \<Rightarrow> reachable exact_arith g1 \<and> length (all_cards g1) = 40 \<and> distinct (map card_id (all_cards g1))
           \<and> (case handleDiscard g1 0 (card_id (hd (hand (players g1 ! 0)))) of
                 Inl e \<Rightarrow> False
               | Inr g2 \<Rightarrow> reachable exact_arith g2 \<and> length (all_cards g2) = 40
                   \<and> distinct (map card_id (all_cards g2))))"
proof -
  let ?g0 = "newGame exact_arith (\<lambda>k. 0) ''u1'' (Num 5)"
  have r0: "reachable exact_arith ?g0" by (rule reachable.created)
  have s0: "status ?g0 = Playing" by (simp add: newGame_def Let_def)
  have "\<not> isl (handleDraw (\<lambda>k. 0) ?g0 0 False)" by code_simp
  then obtain g1 where d: "handleDraw (\<lambda>k. 0) ?g0 0 False = Inr g1"
    by (cases "handleDraw (\<lambda>k. 0) ?g0 0 False") auto
  have r1: "reachable exact_arith g1" using r0 s0 d by (rule reachable.draw)
  have s1: "status g1 = Playing" using handleDraw_Inr [OF d] s0 by simp
  have i: "0 < length (players g1)" and ne: "hand (players g1 ! 0) \<noteq> []"
    using handleDraw_Inr [OF d] by auto
  then have "hd (hand (players g1 ! 0)) \<in> set (hand (players g1 ! 0))" by simp
  from handleDiscard_succeeds [OF i this]
  obtain g2 where c: "handleDiscard g1 0 (card_id (hd (hand (players g1 ! 0)))) = Inr g2"
    by blast
  have r2: "reachable exact_arith g2" using r1 s1 c by (rule reachable.discard)
  show ?thesis
    using r0 r1 r2 d c deck_integrity [OF r0] deck_integrity [OF r1] deck_integrity [OF r2]
    by simp
qed

section \<open>Players who have dropped\<close>

text \<open>
  Claim C6, as the spec states it: once a player has dropped, no later action modifies
  the player's hand, score or penalties, and a later discard by another player leaves
  the penalties of every dropped player unchanged.  In the freshly dealt
  \<open>table_game False\<close> the human in seat 0 drops, with no penalty; the game goes on with
  three players.  Seat 1 then draws the seven of spades from the deck, which gives the
  dropped seat 0 a penalty of 2 turns, and the discard of seat 1 takes it down to 1.
  The request of the drop, with the AI turn that follows it, is answered with the game
  view and leaves seat 0 dropped with a penalty of 1.
\<close>

theorem dropped_penalties_counterexample:
  "isValidMove (table_game False) ''u1'' ''drop'' drop_request = Valid
   \<and> (case handleDrop exact_arith Map.empty (table_game False) 0 of
         Inl e \<Rightarrow> False
       | Inr (us1, g1) \<Rightarrow>
           status g1 = Playing \<and> currentPlayerIndex g1 = 1
           \<and> isDropped (players g1 ! 0) \<and> penalties (players g1 ! 0) = 0
           \<and> (case handleDraw (\<lambda>k. 0) g1 1 False of
                 Inl e \<Rightarrow> False
               | Inr g2 \<Rightarrow>
                   isDropped (players g2 ! 0) \<and> penalties (players g2 ! 0) = 2
                   \<and> (case handleDiscard g2 1 ''card-36'' of
                         Inl e \<Rightarrow> False
                       | Inr g3 \<Rightarrow> isDropped (players g3 ! 0) \<and> penalties (players g3 ! 0) = 1)))
   \<and> (case performAction exact_arith exact_ops (\<lambda>k. 0) (\<lambda>t k. 0) Map.empty (table_game False) ''u1'' ''drop''
              drop_request of
         (r, us', g') \<Rightarrow>
           (case r of
              Failure n m \<Rightarrow> False
            | Json v \<Rightarrow> isDropped (players g' ! 0) \<and> penalties (players g' ! 0) = 1))"
  by code_simp

text \<open>
  Claim C6, amended: once a player has dropped, no request handled by \<open>performAction\<close>
  (the action of the requester and the AI turns that follow it) modifies that player's
  hand or score, and the player stays dropped.  The penalties are not frozen: every
  successful discard takes one turn off the positive penalties of every player, dropped
  or not, and a draw from the deck can set them.
\<close>

theorem dropped_player_frozen:
  "(performAction ar fl rnd rnds us g userId action d = (r, us', g')
      \<and> j < length (players g) \<and> isDropped (players g ! j)
    \<longrightarrow> j < length (players g')
        \<and> hand (players g' ! j) = hand (players g ! j)
        \<and> score (players g' ! j) = score (players g ! j)
        \<and> isDropped (players g' ! j))
   \<and> (handleDiscard g i cid = Inr g2 \<and> j < length (players g)
    \<longrightarrow> penalties (players g2 ! j)
          = (if 0 < penalties (players g ! j) then penalties (players g ! j) - 1
             else penalties (players g ! j)))"
proof (rule conjI; rule impI)
  assume a: "performAction ar fl rnd rnds us g userId action d = (r, us', g')
      \<and> j < length (players g) \<and> isDropped (players g ! j)"
  then have "keeps_dropped g g'" using performAction_keeps by blast
  with a show "j < length (players g')
        \<and> hand (players g' ! j) = hand (players g ! j)
        \<and> score (players g' ! j) = score (players g ! j)
        \<and> isDropped (players g' ! j)"
    by (simp add: keeps_dropped_def)
next
  assume "handleDiscard g i cid = Inr g2 \<and> j < length (players g)"
  then show "penalties (players g2 ! j)
          = (if 0 < penalties (players g ! j) then penalties (players g ! j) - 1
             else penalties (players g ! j))"
    using handleDiscard_Inr [of g i cid g2] by auto
qed

theorem dropped_player_frozen_witness:
  "1 < length (players (table_game True)) \<and> isDropped (players (table_game True) ! 1)
   \<and> (case performAction exact_arith exact_ops (\<lambda>k. 0) (\<lambda>t k. 0) Map.empty (table_game True) ''u1'' ''draw''
              draw_request of
         (r1, us1, g1) \<Rightarrow>
           hasDrawn (players g1 ! 0)
           \<and> hand (players g1 ! 1) = hand (players (table_game True) ! 1)
           \<and> score (players g1 ! 1) = score (players (table_game True) ! 1)
           \<and> isDropped (players g1 ! 1)
           \<and> penalties (players g1 ! 1) = 2
           \<and> (case handleDiscard g1 0 ''card-36'' of
                 Inl e \<Rightarrow> False
               | Inr g2 \<Rightarrow> penalties (players g2 ! 1) = 1))"
proof -
  obtain r1 us1 g1 where
    pa: "performAction exact_arith exact_ops (\<lambda>k. 0) (\<lambda>t k. 0) Map.empty (table_game True) ''u1'' ''draw''
           draw_request = (r1, us1, g1)"
    by (metis prod_cases3)
  have j: "1 < length (players (table_game True))" "isDropped (players (table_game True) ! 1)"
    by (simp_all add: table_game_def new_player_def)
  have e: "case performAction exact_arith exact_ops (\<lambda>k. 0) (\<lambda>t k. 0) Map.empty (table_game True) ''u1'' ''draw''
              draw_request of
         (r1, us1, g1) \<Rightarrow> hasDrawn (players g1 ! 0) \<and> penalties (players g1 ! 1) = 2
           \<and> \<not> isl (handleDiscard g1 0 ''card-36'')"
    by code_simp
  then obtain g2 where dc: "handleDiscard g1 0 ''card-36'' = Inr g2"
    and e1: "hasDrawn (players g1 ! 0)" "penalties (players g1 ! 1) = 2"
    using pa by (cases "handleDiscard g1 0 ''card-36''") auto
  have f: "1 < length (players g1)"
    "hand (players g1 ! 1) = hand (players (table_game True) ! 1)"
    "score (players g1 ! 1) = score (players (table_game True) ! 1)"
    "isDropped (players g1 ! 1)"
    using dropped_player_frozen
      [of exact_arith exact_ops "\<lambda>k. 0" "\<lambda>t k. 0" Map.empty "table_game True" "''u1''" "''draw''" draw_request
          r1 us1 g1 1] pa j
    by simp_all
  have "penalties (players g2 ! 1) = 1"
    using dropped_player_frozen [THEN conjunct2, of g1 0 "''card-36''" g2 1] dc f(1) e1
    by simp
  with pa j e1 f dc show ?thesis by simp
qed

end
